theory Spec2Isabelle
  imports Main "HOL-Library.Sublist"
begin

section \<open>Text, patterns and integers as the module uses them\<close>

text \<open>
  The module \<^verbatim>\<open>patch_cursor_get_machine_id.py\<close> works on Python text. A Python string is
  modelled as a \<^typ>\<open>string\<close>, one \<^typ>\<open>char\<close> per code point, for code points below 256.
  In that range the only characters of the class \<^verbatim>\<open>\d\<close> are \<^verbatim>\<open>0\<close> to \<^verbatim>\<open>9\<close>, and the
  characters that \<^verbatim>\<open>int()\<close> strips as white space are the ones of \<open>is_space\<close>.
\<close>

datatype py_error =
    OSError string
  | ValueError
  | TypeError
  | KeyError
  | EOFError
  | FileNotFoundError
  | IsADirectoryError
  | PermissionError
  | SameFileError
  | UnicodeError
  | JSONDecodeError

definition is_digit :: "char \<Rightarrow> bool" where
  "is_digit c = (48 \<le> (of_char c :: nat) \<and> (of_char c :: nat) \<le> 57)"

definition digit_val :: "char \<Rightarrow> int" where
  "digit_val c = int (of_char c) - 48"

definition is_space :: "char \<Rightarrow> bool" where
  "is_space c =
     (let n = (of_char c :: nat)
      in (9 \<le> n \<and> n \<le> 13) \<or> n = 32 \<or> n = 133 \<or> n = 160)"

subsection \<open>The fragment of \<^verbatim>\<open>re\<close> that the module's patterns use\<close>

text \<open>
  The three patterns of the module are sequences of: a literal character, a character class
  (\<^verbatim>\<open>\d\<close>, or a negated set such as \<^verbatim>\<open>[^??]\<close>), either of them under a greedy \<^verbatim>\<open>+\<close>, the two
  parentheses of the one capturing group, and the anchors \<^verbatim>\<open>^\<close> and \<^verbatim>\<open>$\<close>.
\<close>

datatype cls = Lit char | NotIn "char list" | Digit

datatype item = One cls | Plus cls | GroupOpen | GroupClose | Bol | Eol

fun cls_ok :: "cls \<Rightarrow> char \<Rightarrow> bool" where
  "cls_ok (Lit c) x = (x = c)"
| "cls_ok (NotIn cs) x = (x \<notin> set cs)"
| "cls_ok Digit x = is_digit x"

text \<open>
  \<open>rmatch items s start g\<close> matches the items against a prefix of \<open>s\<close>, as the backtracking
  matcher does: a \<^verbatim>\<open>+\<close> first tries to take one more character and gives it back only when the
  rest of the pattern fails. \<open>start\<close> says whether \<open>s\<close> begins at the beginning of the subject
  (for \<^verbatim>\<open>^\<close>). The group is recorded as the pair of the text remaining when it opened and the
  text remaining when it closed; the result is that pair and the text left after the match.
  \<^verbatim>\<open>$\<close> matches at the end of the subject and before a newline that ends the subject.
\<close>

fun rmatch :: "item list \<Rightarrow> string \<Rightarrow> bool \<Rightarrow> string \<times> string \<Rightarrow> ((string \<times> string) \<times> string) option" where
  "rmatch [] s start g = Some (g, s)"
| "rmatch (GroupOpen # is) s start g = rmatch is s start (s, snd g)"
| "rmatch (GroupClose # is) s start g = rmatch is s start (fst g, s)"
| "rmatch (Bol # is) s start g = (if start then rmatch is s start g else None)"
| "rmatch (Eol # is) s start g =
     (if s = [] \<or> s = [CHR 0x0A] then rmatch is s start g else None)"
| "rmatch (One c # is) [] start g = None"
| "rmatch (One c # is) (x # xs) start g =
     (if cls_ok c x then rmatch is xs False g else None)"
| "rmatch (Plus c # is) [] start g = None"
| "rmatch (Plus c # is) (x # xs) start g =
     (if cls_ok c x
      then (case rmatch (Plus c # is) xs False g of
              Some r \<Rightarrow> Some r
            | None \<Rightarrow> rmatch is xs False g)
      else None)"

definition group_text :: "string \<times> string \<Rightarrow> string" where
  "group_text g = take (length (fst g) - length (snd g)) (fst g)"

definition literal :: "string \<Rightarrow> item list" where
  "literal s = map (\<lambda>c. One (Lit c)) s"

text \<open>\<^verbatim>\<open>re.match(pattern, s)\<close>: a match at the beginning of \<open>s\<close>, or none.\<close>

definition re_match :: "item list \<Rightarrow> string \<Rightarrow> ((string \<times> string) \<times> string) option" where
  "re_match p s = rmatch p s True ([], [])"

subsection \<open>\<^verbatim>\<open>str.split\<close>, \<^verbatim>\<open>int\<close> and the comparison of tuples\<close>

text \<open>\<^verbatim>\<open>s.split(c)\<close> cuts at every \<open>c\<close>; the pieces may be empty.\<close>

fun split_on :: "char \<Rightarrow> string \<Rightarrow> string list" where
  "split_on c [] = [[]]"
| "split_on c (x # xs) =
     (if x = c then [] # split_on c xs
      else (case split_on c xs of
              w # ws \<Rightarrow> (x # w) # ws
            | [] \<Rightarrow> [[x]]))"

definition strip :: "string \<Rightarrow> string" where
  "strip s = rev (dropWhile is_space (rev (dropWhile is_space s)))"

text \<open>
  The digits of an integer literal given to \<^verbatim>\<open>int()\<close>: at least one digit, and single
  underscores between digits only.
\<close>

fun digits_ok :: "string \<Rightarrow> bool" where
  "digits_ok [] = False"
| "digits_ok [c] = is_digit c"
| "digits_ok (c # d # r) =
     (is_digit c \<and> (if d = CHR ''_'' then digits_ok r else digits_ok (d # r)))"

definition decimal :: "string \<Rightarrow> int" where
  "decimal ds = foldl (\<lambda>a c. 10 * a + digit_val c) 0 ds"

text \<open>
  \<^verbatim>\<open>int(s)\<close> in base ten: white space around the literal is dropped, one sign is allowed,
  anything else raises \<^verbatim>\<open>ValueError\<close>. So does a literal of more digits than
  \<^verbatim>\<open>sys.get_int_max_str_digits()\<close>, which is 4300 unless the interpreter is configured
  otherwise; underscores, sign and white space do not count, leading zeros do.
\<close>

definition int_max_str_digits :: nat where
  "int_max_str_digits = 4300"

definition py_int :: "string \<Rightarrow> py_error + int" where
  "py_int s =
     (let t = strip s;
          neg = (t \<noteq> [] \<and> hd t = CHR ''-'');
          body = (if t \<noteq> [] \<and> (hd t = CHR ''-'' \<or> hd t = CHR ''+'') then tl t else t);
          ds = filter (\<lambda>c. c \<noteq> CHR ''_'') body
      in if digits_ok body \<and> length ds \<le> int_max_str_digits
         then Inr ((if neg then - 1 else 1) * decimal ds)
         else Inl ValueError)"

text \<open>\<^verbatim>\<open>tuple(map(int, parts))\<close>: the first part that is no integer raises.\<close>

fun map_int :: "string list \<Rightarrow> py_error + int list" where
  "map_int [] = Inr []"
| "map_int (p # ps) =
     (case py_int p of
        Inl e \<Rightarrow> Inl e
      | Inr n \<Rightarrow> (case map_int ps of Inl e \<Rightarrow> Inl e | Inr ns \<Rightarrow> Inr (n # ns)))"

text \<open>
  Python compares tuples by their first differing component, and a proper prefix is the
  smaller tuple. \<^verbatim>\<open>a > b\<close> on tuples of integers is \<open>tuple_lt b a\<close>.
\<close>

fun tuple_lt :: "int list \<Rightarrow> int list \<Rightarrow> bool" where
  "tuple_lt [] [] = False"
| "tuple_lt [] (y # ys) = True"
| "tuple_lt (x # xs) [] = False"
| "tuple_lt (x # xs) (y # ys) = (if x = y then tuple_lt xs ys else x < y)"

section \<open>\<^verbatim>\<open>version_check\<close>\<close>

text \<open>\<^verbatim>\<open>version_pattern = r"^\d+\.\d+\.\d+$"\<close>\<close>

definition version_pattern :: "item list" where
  "version_pattern =
     [Bol, Plus Digit, One (Lit CHR ''.''), Plus Digit, One (Lit CHR ''.''), Plus Digit, Eol]"

definition parse_version :: "string \<Rightarrow> py_error + int list" where
  "parse_version ver = map_int (split_on CHR ''.'' ver)"

text \<open>
  Each way out of \<^verbatim>\<open>version_check\<close> logs its own line and returns a truth value; the outcome
  names the line. \<open>InvalidFormat\<close> is "Invalid version number format", \<open>BelowMinimum\<close> and
  \<open>AboveMaximum\<close> are the two range messages, \<open>CheckFailed\<close> is the \<^verbatim>\<open>except\<close> branch
  ("Version check failed"), and \<open>Satisfied\<close> is the \<^verbatim>\<open>return True\<close> that logs nothing.
\<close>

datatype vc_outcome = Satisfied | InvalidFormat | BelowMinimum | AboveMaximum | CheckFailed

definition below_bound :: "int list \<Rightarrow> string \<Rightarrow> py_error + bool" where
  \<comment> \<open>\<^verbatim>\<open>min_version and current < parse_version(min_version)\<close>\<close>
  "below_bound current min_version =
     (if min_version = [] then Inr False
      else (case parse_version min_version of
              Inl e \<Rightarrow> Inl e
            | Inr lo \<Rightarrow> Inr (tuple_lt current lo)))"

definition above_bound :: "int list \<Rightarrow> string \<Rightarrow> py_error + bool" where
  \<comment> \<open>\<^verbatim>\<open>max_version and current > parse_version(max_version)\<close>\<close>
  "above_bound current max_version =
     (if max_version = [] then Inr False
      else (case parse_version max_version of
              Inl e \<Rightarrow> Inl e
            | Inr hi \<Rightarrow> Inr (tuple_lt hi current)))"

definition version_check_outcome :: "string \<Rightarrow> string \<Rightarrow> string \<Rightarrow> vc_outcome" where
  "version_check_outcome version min_version max_version =
     (if re_match version_pattern version = None then InvalidFormat
      else (case parse_version version of
              Inl e \<Rightarrow> CheckFailed
            | Inr current \<Rightarrow>
                (case below_bound current min_version of
                   Inl e \<Rightarrow> CheckFailed
                 | Inr True \<Rightarrow> BelowMinimum
                 | Inr False \<Rightarrow>
                     (case above_bound current max_version of
                        Inl e \<Rightarrow> CheckFailed
                      | Inr True \<Rightarrow> AboveMaximum
                      | Inr False \<Rightarrow> Satisfied))))"

definition version_check :: "string \<Rightarrow> string \<Rightarrow> string \<Rightarrow> bool" where
  "version_check version min_version max_version =
     (version_check_outcome version min_version max_version = Satisfied)"


text \<open>The pattern test of the first line of \<^verbatim>\<open>version_check\<close>.\<close>

definition version_format :: "string \<Rightarrow> bool" where
  "version_format v = (re_match version_pattern v \<noteq> None)"

text \<open>A run of decimal digits, as \<^verbatim>\<open>\d+\<close> matches it.\<close>

definition digits :: "string \<Rightarrow> bool" where
  "digits d = (d \<noteq> [] \<and> (\<forall>c \<in> set d. is_digit c))"

subsection \<open>The version triple of the specification\<close>

text \<open>
  These definitions follow the words of the specification and not the code: a version is
  three runs of digits separated by dots, its triple is (major, minor, patch) with each
  run read as a decimal number by the places of its digits, and triples are compared
  lexicographically. A final newline, which \<^verbatim>\<open>$\<close> lets pass, is not part of the version.
\<close>

fun spec_number :: "string \<Rightarrow> nat" where
  "spec_number [] = 0"
| "spec_number (c # cs) = (of_char c - 48) * 10 ^ length cs + spec_number cs"

definition spec_components :: "string \<Rightarrow> (string \<times> string \<times> string) option" where
  "spec_components v =
     (let s = (if v \<noteq> [] \<and> last v = CHR 0x0A then butlast v else v);
          a = takeWhile is_digit s;
          r = dropWhile is_digit s;
          b = takeWhile is_digit (tl r);
          q = dropWhile is_digit (tl r);
          c = tl q
      in if r \<noteq> [] \<and> hd r = CHR ''.'' \<and> q \<noteq> [] \<and> hd q = CHR ''.'' \<and>
            digits a \<and> digits b \<and> digits c
         then Some (a, b, c) else None)"

definition spec_triple :: "string \<Rightarrow> (nat \<times> nat \<times> nat) option" where
  "spec_triple v =
     (case spec_components v of
        None \<Rightarrow> None
      | Some (a, b, c) \<Rightarrow> Some (spec_number a, spec_number b, spec_number c))"

fun spec_triple_le :: "nat \<times> nat \<times> nat \<Rightarrow> nat \<times> nat \<times> nat \<Rightarrow> bool" where
  "spec_triple_le (a, b, c) (x, y, z) = (a < x \<or> (a = x \<and> (b < y \<or> (b = y \<and> c \<le> z))))"

text \<open>No component of the version has more digits than \<^verbatim>\<open>int()\<close> accepts.\<close>

definition spec_within_limit :: "string \<Rightarrow> bool" where
  "spec_within_limit v =
     (case spec_components v of
        None \<Rightarrow> False
      | Some (a, b, c) \<Rightarrow>
          length a \<le> int_max_str_digits \<and> length b \<le> int_max_str_digits \<and>
          length c \<le> int_max_str_digits)"

text \<open>The version and the bound of the inputs on which the limit shows.\<close>

definition long_component :: string where
  "long_component = replicate 4301 (CHR ''1'')"

definition long_version :: string where
  "long_version = ''0.0.'' @ long_component"

section \<open>\<^verbatim>\<open>re.sub\<close> and the two rules of \<^verbatim>\<open>modify_main_js\<close>\<close>

text \<open>A replacement template is literal text with references to the group (\<^verbatim>\<open>\1\<close>).\<close>

datatype tpart = TText string | TGroup

fun expand :: "tpart list \<Rightarrow> string \<times> string \<Rightarrow> string" where
  "expand [] g = []"
| "expand (TText s # ts) g = s @ expand ts g"
| "expand (TGroup # ts) g = group_text g @ expand ts g"

text \<open>
  \<^verbatim>\<open>re.sub(pattern, replacement, content)\<close> scans from the left. Where the pattern matches,
  the expanded template replaces the matched text and the scan goes on behind it; where it
  does not, the character is copied. A match of no characters is replaced too and the
  scan then copies one character.
\<close>

function sub_from :: "item list \<Rightarrow> tpart list \<Rightarrow> bool \<Rightarrow> string \<Rightarrow> string" where
  "sub_from p t start s =
     (case rmatch p s start ([], []) of
        None \<Rightarrow> (if s = [] then [] else hd s # sub_from p t False (tl s))
      | Some (g, rest) \<Rightarrow>
          (if length rest < length s then expand t g @ sub_from p t False rest
           else expand t g @ (if s = [] then [] else hd s # sub_from p t False (tl s))))"
  by pat_completeness auto
termination
  by (relation "measure (\<lambda>(p, t, start, s). length s)") auto

declare sub_from.simps [simp del]

definition re_sub :: "item list \<Rightarrow> tpart list \<Rightarrow> string \<Rightarrow> string" where
  "re_sub p t s = sub_from p t True s"

text \<open>
  \<^verbatim>\<open>r"async getMachineId\(\)\{return [^??]+\?\?([^}]+)\}"\<close> with
  \<^verbatim>\<open>r"async getMachineId(){return \1}"\<close>, and the same for \<^verbatim>\<open>getMacMachineId\<close>.
\<close>

definition accessor_pattern :: "string \<Rightarrow> item list" where
  "accessor_pattern name =
     literal (''async '' @ name @ ''(){return '') @
     [Plus (NotIn ''??''), One (Lit CHR ''?''), One (Lit CHR ''?''),
      GroupOpen, Plus (NotIn ''}''), GroupClose, One (Lit CHR ''}'')]"

definition accessor_template :: "string \<Rightarrow> tpart list" where
  "accessor_template name = [TText (''async '' @ name @ ''(){return ''), TGroup, TText ''}'']"

definition patterns :: "(item list \<times> tpart list) list" where
  "patterns =
     [(accessor_pattern ''getMachineId'', accessor_template ''getMachineId''),
      (accessor_pattern ''getMacMachineId'', accessor_template ''getMacMachineId'')]"

text \<open>The loop \<^verbatim>\<open>for pattern, replacement in patterns.items()\<close>, in the order of the dictionary.\<close>

fun apply_patterns :: "(item list \<times> tpart list) list \<Rightarrow> string \<Rightarrow> string" where
  "apply_patterns [] content = content"
| "apply_patterns ((p, t) # ps) content = apply_patterns ps (re_sub p t content)"

definition patch_content :: "string \<Rightarrow> string" where
  "patch_content content = apply_patterns patterns content"

text \<open>\<open>unmatched p start s\<close>: the pattern matches at no position of \<open>s\<close>.\<close>

fun unmatched :: "item list \<Rightarrow> bool \<Rightarrow> string \<Rightarrow> bool" where
  "unmatched p start [] = (rmatch p [] start ([], []) = None)"
| "unmatched p start (x # xs) =
     (rmatch p (x # xs) start ([], []) = None \<and> unmatched p False xs)"



section \<open>Files, the host and the operations on them\<close>

text \<open>
  A disk maps a path to what is there: a regular file, with its stored bytes and the
  metadata that \<^verbatim>\<open>os.stat\<close> reports, or a directory.
\<close>

record regular_file =
  content :: string
  mode :: nat
  uid :: nat
  gid :: nat

datatype node = File regular_file | Dir

type_synonym disk = "string \<rightharpoonup> node"

datatype jvalue = JString string | JOther

text \<open>
  What the module asks of the platform and of the libraries outside the repository:
  \<^verbatim>\<open>platform.system()\<close>, \<^verbatim>\<open>os.name\<close>, the environment variables, \<^verbatim>\<open>os.path.join\<close> and
  \<^verbatim>\<open>os.path.basename\<close> of the platform, \<^verbatim>\<open>os.linesep\<close>, the user and group of the process,
  the mode a new file gets, the base name of the temporary file, whether \<^verbatim>\<open>input()\<close> finds
  the standard input closed, \<^verbatim>\<open>json.load(f)["version"]\<close> as a function of the manifest's
  text, the UTF-8 decoder and the encoder of the locale (in which the temporary file is
  written), and the answers of the operating system: \<^verbatim>\<open>os.access(path, os.W_OK)\<close>, and for
  each operation on a file whether it is carried out or refused with an exception
  (opening for reading, opening an existing file for writing, creating a file, the
  \<^verbatim>\<open>copystat\<close> of \<^verbatim>\<open>shutil.copy2\<close>, creating the temporary file, \<^verbatim>\<open>os.rename\<close> onto a path,
  \<^verbatim>\<open>os.chmod\<close> and \<^verbatim>\<open>os.chown\<close>).
\<close>

record host =
  system :: string
  os_name :: string
  getenv :: "string \<Rightarrow> string option"
  path_join :: "string \<Rightarrow> string \<Rightarrow> string"
  basename :: "string \<Rightarrow> string"
  linesep :: string
  euid :: nat
  egid :: nat
  new_file_mode :: nat
  tmp_name :: string
  stdin_eof :: bool
  json_version :: "string \<Rightarrow> py_error + jvalue"
  decode_utf8 :: "string \<Rightarrow> py_error + string"
  encode_locale :: "string \<Rightarrow> py_error + string"
  access_w :: "string \<Rightarrow> regular_file \<Rightarrow> bool"
  may_read :: "string \<Rightarrow> regular_file \<Rightarrow> bool"
  may_write :: "string \<Rightarrow> regular_file \<Rightarrow> bool"
  may_create :: "string \<Rightarrow> bool"
  may_copystat :: "string \<Rightarrow> regular_file \<Rightarrow> bool"
  may_mktemp :: bool
  may_rename :: "string \<Rightarrow> bool"
  may_chmod :: "string \<Rightarrow> regular_file \<Rightarrow> bool"
  may_chown :: "string \<Rightarrow> regular_file \<Rightarrow> nat \<Rightarrow> nat \<Rightarrow> bool"

definition path_exists :: "disk \<Rightarrow> string \<Rightarrow> bool" where
  "path_exists d p = (d p \<noteq> None)"

definition isfile :: "disk \<Rightarrow> string \<Rightarrow> bool" where
  "isfile d p = (case d p of Some (File f) \<Rightarrow> True | _ \<Rightarrow> False)"

definition isdir :: "disk \<Rightarrow> string \<Rightarrow> bool" where
  "isdir d p = (d p = Some Dir)"

text \<open>The bytes stored at a path, when a regular file is there.\<close>

definition stored :: "disk \<Rightarrow> string \<Rightarrow> string option" where
  "stored d p = (case d p of Some (File f) \<Rightarrow> Some (content f) | _ \<Rightarrow> None)"

text \<open>
  Text mode: reading turns \<^verbatim>\<open>\r\n\<close> and \<^verbatim>\<open>\r\<close> into \<^verbatim>\<open>\n\<close>, writing turns \<^verbatim>\<open>\n\<close> into the
  line separator of the platform.
\<close>

fun read_text :: "string \<Rightarrow> string" where
  "read_text [] = []"
| "read_text [c] = (if c = CHR 0x0D then [CHR 0x0A] else [c])"
| "read_text (c # e # r) =
     (if c = CHR 0x0D
      then (if e = CHR 0x0A then CHR 0x0A # read_text r else CHR 0x0A # read_text (e # r))
      else c # read_text (e # r))"

definition write_text :: "string \<Rightarrow> string \<Rightarrow> string" where
  "write_text sep s = concat (map (\<lambda>c. if c = CHR 0x0A then sep else [c]) s)"

text \<open>
  The second half of \<^verbatim>\<open>shutil.copy2\<close>, with the source open: the destination is opened for
  writing (an existing file is truncated and keeps its metadata, a new one belongs to the
  process), the bytes are written, and \<^verbatim>\<open>copystat\<close> gives it the mode of the source. An
  exception of \<^verbatim>\<open>copystat\<close> leaves the bytes written. The result is the exception, if any,
  and the disk.
\<close>

definition copy_to :: "host \<Rightarrow> regular_file \<Rightarrow> string \<Rightarrow> disk \<Rightarrow> py_error option \<times> disk" where
  "copy_to h f target d =
     (case d target of
        Some Dir \<Rightarrow> (Some IsADirectoryError, d)
      | Some (File old) \<Rightarrow>
          (if \<not> may_write h target old then (Some PermissionError, d)
           else
             (let w = old\<lparr>content := content f\<rparr>
              in if \<not> may_copystat h target w
                 then (Some PermissionError, d(target \<mapsto> File w))
                 else (None, d(target \<mapsto> File (w\<lparr>mode := mode f\<rparr>)))))
      | None \<Rightarrow>
          (if \<not> may_create h target then (Some PermissionError, d)
           else
             (let w = \<lparr>content = content f, mode = new_file_mode h,
                       uid = euid h, gid = egid h\<rparr>
              in if \<not> may_copystat h target w
                 then (Some PermissionError, d(target \<mapsto> File w))
                 else (None, d(target \<mapsto> File (w\<lparr>mode := mode f\<rparr>))))))"

text \<open>
  \<^verbatim>\<open>shutil.copy2(src, dst)\<close>: a \<open>dst\<close> that is a directory stands for the path of the base
  name of \<open>src\<close> in it; source and destination must differ; \<open>src\<close> must be a regular file
  that can be read.
\<close>

definition copy2 :: "host \<Rightarrow> string \<Rightarrow> string \<Rightarrow> disk \<Rightarrow> py_error option \<times> disk" where
  "copy2 h src dst d =
     (let target = (if isdir d dst then path_join h dst (basename h src) else dst)
      in if target = src \<and> path_exists d src then (Some SameFileError, d)
         else
           (case d src of
              None \<Rightarrow> (Some FileNotFoundError, d)
            | Some Dir \<Rightarrow> (Some IsADirectoryError, d)
            | Some (File f) \<Rightarrow>
                (if \<not> may_read h src f then (Some PermissionError, d)
                 else copy_to h f target d)))"

text \<open>
  \<^verbatim>\<open>shutil.move(tmp_path, dst)\<close> for the temporary file, which is kept beside the disk (its
  name is fresh): a \<open>dst\<close> that is a directory stands for the path of the temporary file's
  name in it, which must not exist; \<^verbatim>\<open>os.rename\<close> puts the file there, and when it is
  refused the file is copied with \<^verbatim>\<open>copy2\<close> and removed.
\<close>

definition move_tmp :: "host \<Rightarrow> regular_file \<Rightarrow> string \<Rightarrow> disk \<Rightarrow> py_error option \<times> disk" where
  "move_tmp h tmp dst d =
     (let real_dst = (if isdir d dst then path_join h dst (tmp_name h) else dst)
      in if isdir d dst \<and> path_exists d real_dst
         then (Some (OSError ''Destination path already exists''), d)
         else if may_rename h real_dst
         then (None, d(real_dst \<mapsto> File tmp))
         else copy_to h tmp real_dst d)"

section \<open>The functions of the module\<close>

subsection \<open>\<^verbatim>\<open>get_cursor_paths\<close>\<close>

text \<open>
  The loop of the Linux branch over the candidate bases, \<^verbatim>\<open>paths_map["Linux"]["bases"]\<close>.
\<close>

fun locate_candidates :: "host \<Rightarrow> disk \<Rightarrow> string list \<Rightarrow> py_error + (string \<times> string)" where
  "locate_candidates h d [] =
     Inl (OSError ''Cursor installation path not found on Linux system'')"
| "locate_candidates h d (base # bases) =
     (let pkg_path = path_join h base ''package.json''
      in if path_exists d pkg_path
         then Inr (pkg_path, path_join h base ''out/main.js'')
         else locate_candidates h d bases)"

definition linux_bases :: "string list" where
  "linux_bases = [''/opt/Cursor/resources/app'', ''/usr/share/cursor/resources/app'']"

definition windows_base :: "host \<Rightarrow> string" where
  "windows_base h =
     (let dflt = foldl (path_join h)
                   (case getenv h ''LOCALAPPDATA'' of None \<Rightarrow> [] | Some a \<Rightarrow> a)
                   [''Programs'', ''Cursor'', ''resources'', ''app'']
      in case getenv h ''USERAPPPATH'' of
           None \<Rightarrow> dflt
         | Some u \<Rightarrow> (if u = [] then dflt else u))"

definition get_cursor_paths :: "host \<Rightarrow> disk \<Rightarrow> py_error + (string \<times> string)" where
  "get_cursor_paths h d =
     (if system h \<notin> {''Darwin'', ''Windows'', ''Linux''}
      then Inl (OSError (''Unsupported operating system: '' @ system h))
      else if system h = ''Linux'' then locate_candidates h d linux_bases
      else
        (let base_path = (if system h = ''Darwin''
                          then ''/Applications/Cursor.app/Contents/Resources/app''
                          else windows_base h)
         in if system h = ''Windows'' \<and> \<not> path_exists d base_path \<and> stdin_eof h
            then Inl EOFError
            else Inr (path_join h base_path ''package.json'',
                      path_join h base_path ''out/main.js'')))"

subsection \<open>\<^verbatim>\<open>check_system_requirements\<close>\<close>

fun check_files :: "host \<Rightarrow> disk \<Rightarrow> string list \<Rightarrow> bool" where
  "check_files h d [] = True"
| "check_files h d (file_path # rest) =
     (case d file_path of
        Some (File f) \<Rightarrow> (if \<not> access_w h file_path f then False else check_files h d rest)
      | _ \<Rightarrow> False)"

definition check_system_requirements :: "host \<Rightarrow> disk \<Rightarrow> string \<Rightarrow> string \<Rightarrow> bool" where
  "check_system_requirements h d pkg_path main_path = check_files h d [pkg_path, main_path]"

subsection \<open>\<^verbatim>\<open>modify_main_js\<close>\<close>

text \<open>
  The statements of the \<^verbatim>\<open>try\<close> block in their order, each with its way to fail:
  \<^verbatim>\<open>os.stat\<close>, the creation of the temporary file, opening, reading and decoding
  \<open>main_path\<close>, the two substitutions, writing the result in the encoding of the locale,
  \<^verbatim>\<open>shutil.copy2\<close> to \<^verbatim>\<open>main_path + ".old"\<close>, \<^verbatim>\<open>shutil.move\<close>, \<^verbatim>\<open>os.chmod\<close>, and
  \<^verbatim>\<open>os.chown\<close> when \<^verbatim>\<open>os.name\<close> is not \<^verbatim>\<open>nt\<close>. The handler returns \<^verbatim>\<open>False\<close>, after
  \<^verbatim>\<open>os.unlink(tmp_path)\<close> when \<open>tmp_path\<close> is bound. Once the temporary file has been moved
  that \<^verbatim>\<open>unlink\<close> raises \<^verbatim>\<open>FileNotFoundError\<close>, and the exception leaves the function:
  this is the result \<open>Inl\<close>. The temporary file is created with mode \<^verbatim>\<open>0o600\<close> for the process.
\<close>

text \<open>The lines after the \<^verbatim>\<open>with\<close> block: the copy to \<^verbatim>\<open>.old\<close>, the move, and the metadata.\<close>

definition set_metadata :: "host \<Rightarrow> string \<Rightarrow> regular_file \<Rightarrow> disk \<Rightarrow> (py_error + bool) \<times> disk" where
  "set_metadata h main_path original d2 =
     (case d2 main_path of
        Some (File moved) \<Rightarrow>
          (if \<not> may_chmod h main_path moved then (Inl FileNotFoundError, d2)
           else
             (let set_mode = moved\<lparr>mode := mode original\<rparr>;
                  d3 = d2(main_path \<mapsto> File set_mode)
              in if os_name h = ''nt'' then (Inr True, d3)
                 else if \<not> may_chown h main_path set_mode (uid original) (gid original)
                 then (Inl FileNotFoundError, d3)
                 else (Inr True,
                       d3(main_path \<mapsto>
                            File (set_mode\<lparr>uid := uid original, gid := gid original\<rparr>)))))
      | _ \<Rightarrow> (Inl FileNotFoundError, d2))"

definition replace_main :: "host \<Rightarrow> regular_file \<Rightarrow> string \<Rightarrow> regular_file \<Rightarrow> disk \<Rightarrow> (py_error + bool) \<times> disk" where
  "replace_main h tmp main_path original d =
     (case copy2 h main_path (main_path @ ''.old'') d of
        (Some e, d1) \<Rightarrow> (Inr False, d1)
      | (None, d1) \<Rightarrow>
          (case move_tmp h tmp main_path d1 of
             (Some e, d2) \<Rightarrow> (Inr False, d2)
           | (None, d2) \<Rightarrow> set_metadata h main_path original d2))"

definition modify_main_js :: "host \<Rightarrow> string \<Rightarrow> disk \<Rightarrow> (py_error + bool) \<times> disk" where
  "modify_main_js h main_path d =
     (if \<not> path_exists d main_path then (Inr False, d)
      else if \<not> may_mktemp h then (Inr False, d)
      else
        (case d main_path of
           Some (File original) \<Rightarrow>
             (if \<not> may_read h main_path original then (Inr False, d)
              else
                (case decode_utf8 h (content original) of
                   Inl e \<Rightarrow> (Inr False, d)
                 | Inr decoded \<Rightarrow>
                     (case encode_locale h
                             (write_text (linesep h) (patch_content (read_text decoded))) of
                        Inl e \<Rightarrow> (Inr False, d)
                      | Inr written \<Rightarrow>
                          replace_main h
                            \<lparr>content = written, mode = 384, uid = euid h, gid = egid h\<rparr>
                            main_path original d)))
         | _ \<Rightarrow> (Inr False, d)))"

subsection \<open>\<^verbatim>\<open>backup_files\<close> and \<^verbatim>\<open>restore_backup_files\<close>\<close>

definition backup_files :: "host \<Rightarrow> string \<Rightarrow> string \<Rightarrow> disk \<Rightarrow> bool \<times> disk" where
  "backup_files h pkg_path main_path d =
     (if path_exists d main_path
      then (case copy2 h main_path (main_path @ ''.bak'') d of
              (Some e, d') \<Rightarrow> (False, d')
            | (None, d') \<Rightarrow> (True, d'))
      else (True, d))"

definition restore_backup_files :: "host \<Rightarrow> string \<Rightarrow> string \<Rightarrow> disk \<Rightarrow> bool \<times> disk" where
  "restore_backup_files h pkg_path main_path d =
     (let backup_main = main_path @ ''.bak''
      in if path_exists d backup_main
         then (case copy2 h backup_main main_path d of
                 (Some e, d') \<Rightarrow> (False, d')
               | (None, d') \<Rightarrow> (True, d'))
         else (False, d))"

subsection \<open>\<^verbatim>\<open>patch_cursor_get_machine_id\<close>\<close>

text \<open>
  The function either returns or leaves through \<^verbatim>\<open>sys.exit(1)\<close>; a script that returns
  ends with status 0.
\<close>

datatype finish = Returns | SysExit int

fun exit_status :: "finish \<Rightarrow> int" where
  "exit_status Returns = 0"
| "exit_status (SysExit n) = n"

text \<open>\<^verbatim>\<open>json.load(f)["version"]\<close> on the manifest, opened as UTF-8 text.\<close>

definition read_version :: "host \<Rightarrow> disk \<Rightarrow> string \<Rightarrow> py_error + jvalue" where
  "read_version h d pkg_path =
     (case d pkg_path of
        None \<Rightarrow> Inl FileNotFoundError
      | Some Dir \<Rightarrow> Inl IsADirectoryError
      | Some (File f) \<Rightarrow>
          (if \<not> may_read h pkg_path f then Inl PermissionError
           else (case decode_utf8 h (content f) of
                   Inl e \<Rightarrow> Inl e
                 | Inr decoded \<Rightarrow> json_version h (read_text decoded))))"

text \<open>
  \<^verbatim>\<open>version_check(version, min_version="0.45.0")\<close>; a version that is no string makes
  \<^verbatim>\<open>re.match\<close> raise inside the \<^verbatim>\<open>try\<close>, which returns \<^verbatim>\<open>False\<close>.
\<close>

fun version_policy :: "jvalue \<Rightarrow> bool" where
  "version_policy (JString v) = version_check v ''0.45.0'' []"
| "version_policy JOther = False"

text \<open>
  An exception that leaves \<^verbatim>\<open>modify_main_js\<close> is caught by the \<^verbatim>\<open>except\<close> of the main
  function, which ends in \<^verbatim>\<open>sys.exit(1)\<close> too.
\<close>

definition patch_cursor_get_machine_id :: "host \<Rightarrow> disk \<Rightarrow> bool \<Rightarrow> finish \<times> disk" where
  "patch_cursor_get_machine_id h d restore_mode =
     (case get_cursor_paths h d of
        Inl e \<Rightarrow> (SysExit 1, d)
      | Inr (pkg_path, main_path) \<Rightarrow>
          if \<not> check_system_requirements h d pkg_path main_path then (SysExit 1, d)
          else if restore_mode
          then (Returns, snd (restore_backup_files h pkg_path main_path d))
          else
            (case read_version h d pkg_path of
               Inl e \<Rightarrow> (SysExit 1, d)
             | Inr version \<Rightarrow>
                 if \<not> version_policy version then (SysExit 1, d)
                 else
                   (case backup_files h pkg_path main_path d of
                      (False, d1) \<Rightarrow> (SysExit 1, d1)
                    | (True, d1) \<Rightarrow>
                        (case modify_main_js h main_path d1 of
                           (Inr True, d2) \<Rightarrow> (Returns, d2)
                         | (Inr False, d2) \<Rightarrow> (SysExit 1, d2)
                         | (Inl e, d2) \<Rightarrow> (SysExit 1, d2)))))"

section \<open>A Linux host and a disk for the scenarios\<close>

text \<open>
  \<^verbatim>\<open>posixpath.join\<close> and \<^verbatim>\<open>posixpath.basename\<close> for two components, a reader that stands
  for \<^verbatim>\<open>json.load(f)["version"]\<close> on manifests of the one shape the scenarios use, and a
  codec that stands for UTF-8 on the ASCII texts of the scenarios. The process has user
  and group 1000, and the system lets it read, write and create everywhere and change
  the metadata of the files that it owns, without changing their owner.
\<close>

definition posix_join :: "string \<Rightarrow> string \<Rightarrow> string" where
  "posix_join a b =
     (if b \<noteq> [] \<and> hd b = CHR ''/'' then b
      else if a = [] \<or> last a = CHR ''/'' then a @ b
      else a @ ''/'' @ b)"

definition posix_basename :: "string \<Rightarrow> string" where
  "posix_basename p = rev (takeWhile (\<lambda>c. c \<noteq> CHR ''/'') (rev p))"

definition scenario_manifest :: "string \<Rightarrow> string" where
  "scenario_manifest v =
     ''{'' @ [CHR 0x22] @ ''version'' @ [CHR 0x22] @ '': '' @ [CHR 0x22] @ v @ [CHR 0x22] @ ''}''"

definition scenario_json_version :: "string \<Rightarrow> py_error + jvalue" where
  "scenario_json_version s =
     (if prefix (''{'' @ [CHR 0x22] @ ''version'' @ [CHR 0x22] @ '': '' @ [CHR 0x22]) s
      then Inr (JString (takeWhile (\<lambda>c. c \<noteq> CHR 0x22) (drop 13 s)))
      else Inl JSONDecodeError)"

definition ascii_codec :: "string \<Rightarrow> py_error + string" where
  "ascii_codec s = (if list_all (\<lambda>c. (of_char c :: nat) < 128) s then Inr s else Inl UnicodeError)"

definition linux_host :: host where
  "linux_host =
     \<lparr>system = ''Linux'', os_name = ''posix'', getenv = (\<lambda>v. None),
      path_join = posix_join, basename = posix_basename, linesep = [CHR 0x0A],
      euid = 1000, egid = 1000, new_file_mode = 420, tmp_name = ''tmpk3x9q2ab'',
      stdin_eof = False, json_version = scenario_json_version,
      decode_utf8 = ascii_codec, encode_locale = ascii_codec,
      access_w = (\<lambda>p f. True), may_read = (\<lambda>p f. True), may_write = (\<lambda>p f. True),
      may_create = (\<lambda>p. True), may_copystat = (\<lambda>p f. uid f = 1000),
      may_mktemp = True, may_rename = (\<lambda>p. True),
      may_chmod = (\<lambda>p f. uid f = 1000),
      may_chown = (\<lambda>p f u g. uid f = 1000 \<and> u = 1000 \<and> g = 1000)\<rparr>"

definition scenario_file :: "string \<Rightarrow> regular_file" where
  "scenario_file s = \<lparr>content = s, mode = 420, uid = 1000, gid = 1000\<rparr>"

definition scenario_pkg :: string where
  "scenario_pkg = ''/opt/Cursor/resources/app/package.json''"

definition scenario_main :: string where
  "scenario_main = ''/opt/Cursor/resources/app/out/main.js''"

definition scenario_disk :: "string \<Rightarrow> string \<Rightarrow> disk" where
  "scenario_disk manifest main_js =
     [''/opt/Cursor/resources/app'' \<mapsto> Dir,
      ''/opt/Cursor/resources/app/out'' \<mapsto> Dir,
      scenario_pkg \<mapsto> File (scenario_file manifest),
      scenario_main \<mapsto> File (scenario_file main_js)]"

text \<open>The same disk with a directory at the path of the \<^verbatim>\<open>.old\<close> copy.\<close>

definition scenario_disk_old_dir :: "string \<Rightarrow> string \<Rightarrow> disk" where
  "scenario_disk_old_dir manifest main_js =
     (scenario_disk manifest main_js)(scenario_main @ ''.old'' \<mapsto> Dir)"

definition three_candidates :: "string list" where
  "three_candidates = [''/usr/local/cursor'', ''/opt/Cursor/resources/app'', ''/srv/cursor'']"

definition accessor_text :: string where
  "accessor_text = ''async getMachineId(){return a.machineId ?? b.machineId}''"

text \<open>What the first rule makes of it: the group keeps the blank that follows \<^verbatim>\<open>??\<close>.\<close>

definition rewritten_text :: string where
  "rewritten_text = ''async getMachineId(){return  b.machineId}''"



section \<open>Properties of \<^verbatim>\<open>version_check\<close>\<close>

text \<open>
  A greedy \<^verbatim>\<open>+\<close> never has to give a character back when the rest of the pattern cannot
  start with a character of the class: it takes the longest run.
\<close>

lemma plus_greedy:
  assumes rej: "\<And>y ys b g. cls_ok c y \<Longrightarrow> rmatch rest (y # ys) b g = None"
  shows "rmatch (Plus c # rest) s b g =
         (if takeWhile (cls_ok c) s = [] then None
          else rmatch rest (dropWhile (cls_ok c) s) False g)"
proof (induction s arbitrary: b)
  case Nil
  show ?case by simp
next
  case (Cons x xs)
  show ?case
  proof (cases "cls_ok c x")
    case False
    then show ?thesis by simp
  next
    case True
    show ?thesis
    proof (cases "takeWhile (cls_ok c) xs = []")
      case e: True
      then have "dropWhile (cls_ok c) xs = xs"
        by (cases xs) (auto split: if_splits)
      with True e Cons [of False] show ?thesis by simp
    next
      case ne: False
      then obtain y ys where xs: "xs = y # ys" and y: "cls_ok c y"
        by (cases xs) (auto split: if_splits)
      have "rmatch rest xs False g = None"
        unfolding xs by (rule rej [OF y])
      with True ne Cons [of False] show ?thesis
        by (simp split: option.splits)
    qed
  qed
qed

lemma dot_not_digit: "\<not> is_digit CHR ''.''"
  by (simp add: is_digit_def)

lemma nl_not_digit: "\<not> is_digit (CHR 0x0A)"
  by (simp add: is_digit_def)

lemma version_format_shape:
  assumes "version_format v"
  shows "\<exists>d1 d2 d3 t. v = d1 @ CHR ''.'' # d2 @ CHR ''.'' # d3 @ t \<and>
           digits d1 \<and> digits d2 \<and> digits d3 \<and> (t = [] \<or> t = [CHR 0x0A])"
proof -
  let ?D = "cls_ok Digit"
  let ?i3 = "[Eol]"
  let ?i2 = "One (Lit CHR ''.'') # Plus Digit # ?i3"
  let ?i1 = "One (Lit CHR ''.'') # Plus Digit # ?i2"
  have r3: "\<And>y ys b g. ?D y \<Longrightarrow> rmatch ?i3 (y # ys) b g = None"
    using nl_not_digit by auto
  have r2: "\<And>y ys b g. ?D y \<Longrightarrow> rmatch ?i2 (y # ys) b g = None"
    using dot_not_digit by auto
  have r1: "\<And>y ys b g. ?D y \<Longrightarrow> rmatch ?i1 (y # ys) b g = None"
    using dot_not_digit by auto
  define d1 where "d1 = takeWhile ?D v"
  define s1 where "s1 = dropWhile ?D v"
  have v: "v = d1 @ s1" by (simp add: d1_def s1_def)
  have m1: "rmatch (Plus Digit # ?i1) v True ([], []) \<noteq> None"
    using assms by (simp add: version_format_def re_match_def version_pattern_def)
  have ne1: "d1 \<noteq> []" and m1': "rmatch ?i1 s1 False ([], []) \<noteq> None"
    using m1 by (simp_all only: plus_greedy [OF r1] d1_def s1_def split: if_splits) simp_all
  from m1' obtain s1' where s1: "s1 = CHR ''.'' # s1'"
    and m2: "rmatch (Plus Digit # ?i2) s1' False ([], []) \<noteq> None"
    by (cases s1) (auto split: if_splits)
  define d2 where "d2 = takeWhile ?D s1'"
  define s2 where "s2 = dropWhile ?D s1'"
  have s1': "s1' = d2 @ s2" by (simp add: d2_def s2_def)
  have ne2: "d2 \<noteq> []" and m2': "rmatch ?i2 s2 False ([], []) \<noteq> None"
    using m2 by (simp_all only: plus_greedy [OF r2] d2_def s2_def split: if_splits) simp_all
  from m2' obtain s2' where s2: "s2 = CHR ''.'' # s2'"
    and m3: "rmatch (Plus Digit # ?i3) s2' False ([], []) \<noteq> None"
    by (cases s2) (auto split: if_splits)
  define d3 where "d3 = takeWhile ?D s2'"
  define t where "t = dropWhile ?D s2'"
  have s2': "s2' = d3 @ t" by (simp add: d3_def t_def)
  have ne3: "d3 \<noteq> []" and m3': "rmatch ?i3 t False ([], []) \<noteq> None"
    using m3 by (simp_all only: plus_greedy [OF r3] d3_def t_def split: if_splits) simp_all
  from m3' have t: "t = [] \<or> t = [CHR 0x0A]"
    by (auto split: if_splits)
  have dig: "\<forall>c \<in> set d1. is_digit c" "\<forall>c \<in> set d2. is_digit c" "\<forall>c \<in> set d3. is_digit c"
    unfolding d1_def d2_def d3_def by (auto dest: set_takeWhileD)
  have "v = d1 @ CHR ''.'' # d2 @ CHR ''.'' # d3 @ t"
    by (simp add: v s1 s1' s2 s2')
  with ne1 ne2 ne3 dig t show ?thesis
    unfolding digits_def by blast
qed

lemma split_on_piece:
  "c \<notin> set d \<Longrightarrow> split_on c (d @ c # r) = d # split_on c r"
  by (induction d) auto

lemma split_on_last:
  "c \<notin> set d \<Longrightarrow> split_on c d = [d]"
  by (induction d) auto

lemma digit_not_space: "is_digit c \<Longrightarrow> \<not> is_space c"
  by (auto simp: is_digit_def is_space_def Let_def)

lemma nl_space: "is_space (CHR 0x0A)"
  by (simp add: is_space_def)

lemma strip_digits:
  assumes "digits d" "t = [] \<or> t = [CHR 0x0A]"
  shows "strip (d @ t) = d"
proof -
  from assms(1) obtain x xs where d: "d = x # xs" and x: "\<not> is_space x"
    by (cases d) (auto simp: digits_def digit_not_space)
  from assms(1) obtain ys y where d': "d = ys @ [y]" and y: "\<not> is_space y"
    by (cases d rule: rev_cases) (auto simp: digits_def digit_not_space)
  have 1: "dropWhile is_space (d @ t) = d @ t"
    using x by (simp add: d)
  have 2: "dropWhile is_space (rev (d @ t)) = rev d"
    using assms(2) y nl_space by (auto simp: d')
  show ?thesis unfolding strip_def 1 2 by simp
qed

lemma digits_ok_digits:
  "d \<noteq> [] \<Longrightarrow> \<forall>c \<in> set d. is_digit c \<Longrightarrow> digits_ok d"
proof (induction d rule: digits_ok.induct)
  case (3 c d r)
  have "d \<noteq> CHR ''_''" using 3(4) by (auto simp: is_digit_def)
  with 3 show ?case by simp
qed simp_all


lemma py_int_digits:
  assumes "digits d" "t = [] \<or> t = [CHR 0x0A]" "length d \<le> int_max_str_digits"
  shows "py_int (d @ t) = Inr (decimal d)"
proof -
  have ne: "d \<noteq> []" and all: "\<forall>c \<in> set d. is_digit c"
    using assms(1) by (auto simp: digits_def)
  have hd: "is_digit (hd d)" using ne all by (cases d) auto
  then have sign: "hd d \<noteq> CHR ''-''" "hd d \<noteq> CHR ''+''"
    by (auto simp: is_digit_def)
  have f: "filter (\<lambda>c. c \<noteq> CHR ''_'') d = d"
    using all by (auto simp: filter_id_conv is_digit_def)
  show ?thesis
    unfolding py_int_def strip_digits [OF assms(1,2)]
    using sign ne digits_ok_digits [OF ne all] assms(3) by (simp add: f)
qed

lemma py_int_long:
  assumes "digits d" "t = [] \<or> t = [CHR 0x0A]" "int_max_str_digits < length d"
  shows "py_int (d @ t) = Inl ValueError"
proof -
  have ne: "d \<noteq> []" and all: "\<forall>c \<in> set d. is_digit c"
    using assms(1) by (auto simp: digits_def)
  have hd: "is_digit (hd d)" using ne all by (cases d) auto
  then have sign: "hd d \<noteq> CHR ''-''" "hd d \<noteq> CHR ''+''"
    by (auto simp: is_digit_def)
  have f: "filter (\<lambda>c. c \<noteq> CHR ''_'') d = d"
    using all by (auto simp: filter_id_conv is_digit_def)
  show ?thesis
    unfolding py_int_def strip_digits [OF assms(1,2)]
    using sign ne assms(3) by (simp add: f)
qed

text \<open>The number that the code computes from a run of digits is the one of its places.\<close>

lemma foldl_decimal:
  "\<forall>c \<in> set d. is_digit c \<Longrightarrow>
   foldl (\<lambda>a c. 10 * a + digit_val c) a d = a * 10 ^ length d + int (spec_number d)"
proof (induction d arbitrary: a)
  case Nil
  show ?case by simp
next
  case (Cons c d)
  define k where "k = (of_char c :: nat) - 48"
  have c: "digit_val c = int k"
    using Cons.prems by (auto simp: digit_val_def is_digit_def k_def)
  have s: "spec_number (c # d) = k * 10 ^ length d + spec_number d"
    by (simp add: k_def)
  have "foldl (\<lambda>a c. 10 * a + digit_val c) (10 * a + digit_val c) d =
        (10 * a + digit_val c) * 10 ^ length d + int (spec_number d)"
    using Cons.prems by (intro Cons.IH) simp
  then show ?case unfolding s by (simp add: c algebra_simps)
qed

lemma decimal_spec: "\<forall>c \<in> set d. is_digit c \<Longrightarrow> decimal d = int (spec_number d)"
  using foldl_decimal [of d 0] by (simp add: decimal_def)

lemma digits_no_dot:
  "digits d \<Longrightarrow> t = [] \<or> t = [CHR 0x0A] \<Longrightarrow> CHR ''.'' \<notin> set (d @ t)"
  by (auto simp: digits_def is_digit_def)

lemma takeWhile_run:
  "\<forall>c \<in> set d. is_digit c \<Longrightarrow> takeWhile is_digit (d @ CHR ''.'' # r) = d"
  by (simp add: takeWhile_append2 dot_not_digit)

lemma dropWhile_run:
  "\<forall>c \<in> set d. is_digit c \<Longrightarrow> dropWhile is_digit (d @ CHR ''.'' # r) = CHR ''.'' # r"
  by (simp add: dropWhile_append2 dot_not_digit)

lemma takeWhile_all: "\<forall>c \<in> set d. is_digit c \<Longrightarrow> takeWhile is_digit (d @ t) = d @ takeWhile is_digit t"
  by (simp add: takeWhile_append2)

lemma dropWhile_all: "\<forall>c \<in> set d. is_digit c \<Longrightarrow> dropWhile is_digit (d @ t) = dropWhile is_digit t"
  by (simp add: dropWhile_append2)

text \<open>Three runs of digits with dots between them match the pattern, and conversely.\<close>

lemma version_format_digits:
  assumes "digits d1" "digits d2" "digits d3" "t = [] \<or> t = [CHR 0x0A]"
  shows "version_format (d1 @ CHR ''.'' # d2 @ CHR ''.'' # d3 @ t)"
proof -
  let ?D = "cls_ok Digit"
  let ?i3 = "[Eol]"
  let ?i2 = "One (Lit CHR ''.'') # Plus Digit # ?i3"
  let ?i1 = "One (Lit CHR ''.'') # Plus Digit # ?i2"
  have r3: "\<And>y ys b g. ?D y \<Longrightarrow> rmatch ?i3 (y # ys) b g = None"
    using nl_not_digit by auto
  have r2: "\<And>y ys b g. ?D y \<Longrightarrow> rmatch ?i2 (y # ys) b g = None"
    using dot_not_digit by auto
  have r1: "\<And>y ys b g. ?D y \<Longrightarrow> rmatch ?i1 (y # ys) b g = None"
    using dot_not_digit by auto
  have D: "?D = is_digit" by (rule ext) simp
  have a: "\<forall>c \<in> set d1. is_digit c" "\<forall>c \<in> set d2. is_digit c" "\<forall>c \<in> set d3. is_digit c"
    and n: "d1 \<noteq> []" "d2 \<noteq> []" "d3 \<noteq> []"
    using assms(1-3) by (auto simp: digits_def)
  have tt: "takeWhile is_digit t = []" "dropWhile is_digit t = t"
    using assms(4) nl_not_digit by auto
  have e3: "rmatch (Plus Digit # ?i3) (d3 @ t) False ([], []) =
              (if takeWhile ?D (d3 @ t) = [] then None
               else rmatch ?i3 (dropWhile ?D (d3 @ t)) False ([], []))"
    by (rule plus_greedy [OF r3])
  have 3: "rmatch (Plus Digit # ?i3) (d3 @ t) False ([], []) \<noteq> None"
    unfolding e3 D using assms(4) n(3)
    by (auto simp: takeWhile_all [OF a(3)] dropWhile_all [OF a(3)] tt)
  have e2: "rmatch (Plus Digit # ?i2) (d2 @ CHR ''.'' # d3 @ t) False ([], []) =
              (if takeWhile ?D (d2 @ CHR ''.'' # d3 @ t) = [] then None
               else rmatch ?i2 (dropWhile ?D (d2 @ CHR ''.'' # d3 @ t)) False ([], []))"
    by (rule plus_greedy [OF r2])
  have 2: "rmatch (Plus Digit # ?i2) (d2 @ CHR ''.'' # d3 @ t) False ([], []) \<noteq> None"
    unfolding e2 D using 3 n(2)
    by (simp add: takeWhile_run [OF a(2)] dropWhile_run [OF a(2)])
  have e1: "rmatch (Plus Digit # ?i1) (d1 @ CHR ''.'' # d2 @ CHR ''.'' # d3 @ t) True ([], []) =
              (if takeWhile ?D (d1 @ CHR ''.'' # d2 @ CHR ''.'' # d3 @ t) = [] then None
               else rmatch ?i1 (dropWhile ?D (d1 @ CHR ''.'' # d2 @ CHR ''.'' # d3 @ t))
                      False ([], []))"
    by (rule plus_greedy [OF r1])
  have 1: "rmatch (Plus Digit # ?i1) (d1 @ CHR ''.'' # d2 @ CHR ''.'' # d3 @ t) True ([], []) \<noteq> None"
    unfolding e1 D using 2 n(1)
    by (simp add: takeWhile_run [OF a(1)] dropWhile_run [OF a(1)])
  then show ?thesis
    by (simp add: version_format_def re_match_def version_pattern_def)
qed

lemma spec_components_shape:
  assumes "digits d1" "digits d2" "digits d3" "t = [] \<or> t = [CHR 0x0A]"
  shows "spec_components (d1 @ CHR ''.'' # d2 @ CHR ''.'' # d3 @ t) = Some (d1, d2, d3)"
proof -
  let ?v = "d1 @ CHR ''.'' # d2 @ CHR ''.'' # d3 @ t"
  let ?s = "d1 @ CHR ''.'' # d2 @ CHR ''.'' # d3"
  have a: "\<forall>c \<in> set d1. is_digit c" "\<forall>c \<in> set d2. is_digit c" "\<forall>c \<in> set d3. is_digit c"
    and n: "d3 \<noteq> []"
    using assms(1-3) by (auto simp: digits_def)
  have l: "last d3 \<noteq> CHR 0x0A"
    using a(3) n nl_not_digit last_in_set [OF n] by metis
  have s: "(if ?v \<noteq> [] \<and> last ?v = CHR 0x0A then butlast ?v else ?v) = ?s"
  proof (cases "t = []")
    case True
    then show ?thesis using l n by simp
  next
    case False
    with assms(4) have t: "t = [CHR 0x0A]" by simp
    show ?thesis by (simp add: t butlast_append)
  qed
  have 1: "takeWhile is_digit ?s = d1" "dropWhile is_digit ?s = CHR ''.'' # d2 @ CHR ''.'' # d3"
    by (simp_all add: takeWhile_run [OF a(1)] dropWhile_run [OF a(1)])
  have 2: "takeWhile is_digit (d2 @ CHR ''.'' # d3) = d2"
    "dropWhile is_digit (d2 @ CHR ''.'' # d3) = CHR ''.'' # d3"
    by (simp_all add: takeWhile_run [OF a(2)] dropWhile_run [OF a(2)])
  show ?thesis
    unfolding spec_components_def s Let_def 1 using assms(1-3) by (simp add: 2)
qed

lemma parse_version_shape:
  assumes "digits d1" "digits d2" "digits d3" "t = [] \<or> t = [CHR 0x0A]"
    and "length d1 \<le> int_max_str_digits" "length d2 \<le> int_max_str_digits"
      "length d3 \<le> int_max_str_digits"
  shows "parse_version (d1 @ CHR ''.'' # d2 @ CHR ''.'' # d3 @ t) =
           Inr [int (spec_number d1), int (spec_number d2), int (spec_number d3)]"
proof -
  have n1: "CHR ''.'' \<notin> set d1" and n2: "CHR ''.'' \<notin> set d2"
    using digits_no_dot [of d1 "[]"] digits_no_dot [of d2 "[]"] assms(1,2) by auto
  have n3: "CHR ''.'' \<notin> set (d3 @ t)" using digits_no_dot [OF assms(3,4)] .
  have sp: "split_on CHR ''.'' (d1 @ CHR ''.'' # d2 @ CHR ''.'' # d3 @ t) = [d1, d2, d3 @ t]"
    using split_on_piece [OF n1] split_on_piece [OF n2] split_on_last [OF n3]
    by simp
  have d: "decimal d1 = int (spec_number d1)" "decimal d2 = int (spec_number d2)"
    "decimal d3 = int (spec_number d3)"
    using assms(1-3) by (auto simp: digits_def intro: decimal_spec)
  show ?thesis
    unfolding parse_version_def sp
    using py_int_digits [OF assms(1) _ assms(5), of "[]"]
      py_int_digits [OF assms(2) _ assms(6), of "[]"]
      py_int_digits [OF assms(3,4) assms(7)]
    by (simp add: d)
qed

text \<open>
  A version that passes the pattern has a triple; when no component exceeds the limit of
  \<^verbatim>\<open>int()\<close>, the code parses it to that triple.
\<close>

lemma version_format_triple:
  assumes "version_format v"
  shows "\<exists>t. spec_triple v = Some t"
proof -
  from version_format_shape [OF assms] obtain d1 d2 d3 t where
    v: "v = d1 @ CHR ''.'' # d2 @ CHR ''.'' # d3 @ t"
    and d: "digits d1" "digits d2" "digits d3" and t: "t = [] \<or> t = [CHR 0x0A]"
    by blast
  show ?thesis
    unfolding v spec_triple_def spec_components_shape [OF d t] by simp
qed

lemma parse_version_triple:
  assumes "version_format v" "spec_within_limit v" "spec_triple v = Some (a, b, c)"
  shows "parse_version v = Inr [int a, int b, int c]"
proof -
  from version_format_shape [OF assms(1)] obtain d1 d2 d3 t where
    v: "v = d1 @ CHR ''.'' # d2 @ CHR ''.'' # d3 @ t"
    and d: "digits d1" "digits d2" "digits d3" and t: "t = [] \<or> t = [CHR 0x0A]"
    by blast
  have sc: "spec_components v = Some (d1, d2, d3)"
    unfolding v by (rule spec_components_shape [OF d t])
  have l: "length d1 \<le> int_max_str_digits" "length d2 \<le> int_max_str_digits"
    "length d3 \<le> int_max_str_digits"
    using assms(2) by (simp_all add: spec_within_limit_def sc)
  have n: "a = spec_number d1" "b = spec_number d2" "c = spec_number d3"
    using assms(3) by (simp_all add: spec_triple_def sc)
  show ?thesis
    unfolding n unfolding v by (rule parse_version_shape [OF d t l])
qed

lemma tuple_lt_triple:
  "tuple_lt [int a, int b, int c] [int x, int y, int z] = (\<not> spec_triple_le (x, y, z) (a, b, c))"
  by auto

lemma version_format_nonempty: "version_format v \<Longrightarrow> v \<noteq> []"
  by (auto simp: version_format_def re_match_def version_pattern_def)

lemma version_check_triples:
  assumes v: "version_format v" "spec_within_limit v" "spec_triple v = Some t"
    and mn: "mn = [] \<or> (version_format mn \<and> spec_within_limit mn \<and> spec_triple mn = Some lo)"
    and mx: "mx = [] \<or> (version_format mx \<and> spec_within_limit mx \<and> spec_triple mx = Some hi)"
  shows "version_check v mn mx =
           ((mn = [] \<or> spec_triple_le lo t) \<and> (mx = [] \<or> spec_triple_le t hi))"
proof -
  obtain a b c where t: "t = (a, b, c)" by (cases t) auto
  obtain x y z where lo: "lo = (x, y, z)" by (cases lo) auto
  obtain p q r where hi: "hi = (p, q, r)" by (cases hi) auto
  have pv: "parse_version v = Inr [int a, int b, int c]"
    using v t parse_version_triple by simp
  obtain m where f: "re_match version_pattern v = Some m"
    using v(1) by (cases "re_match version_pattern v") (simp_all add: version_format_def)
  define P where "P = (mn \<noteq> [] \<and> \<not> spec_triple_le lo t)"
  define Q where "Q = (mx \<noteq> [] \<and> \<not> spec_triple_le t hi)"
  have b: "below_bound [int a, int b, int c] mn = Inr P"
  proof (cases "mn = []")
    case True
    then show ?thesis by (simp add: below_bound_def P_def)
  next
    case False
    with mn have "parse_version mn = Inr [int x, int y, int z]"
      using parse_version_triple [of mn x y z] lo by simp
    with False show ?thesis
      by (simp only: below_bound_def if_False sum.case tuple_lt_triple lo t P_def) simp
  qed
  have a: "above_bound [int a, int b, int c] mx = Inr Q"
  proof (cases "mx = []")
    case True
    then show ?thesis by (simp add: above_bound_def Q_def)
  next
    case False
    with mx have "parse_version mx = Inr [int p, int q, int r]"
      using parse_version_triple [of mx p q r] hi by simp
    with False show ?thesis
      by (simp only: above_bound_def if_False sum.case tuple_lt_triple hi t Q_def) simp
  qed
  have "version_check v mn mx = (\<not> P \<and> \<not> Q)"
    unfolding version_check_def version_check_outcome_def
    by (cases P; cases Q) (simp_all add: f pv a b)
  then show ?thesis by (auto simp: P_def Q_def)
qed

lemma spec_triple_le_trans:
  "spec_triple_le r s \<Longrightarrow> spec_triple_le s t \<Longrightarrow> spec_triple_le r t"
  by (cases r, cases s, cases t) auto

text \<open>The version with a component of 4301 digits: it passes the pattern and cannot be parsed.\<close>

lemma digits_long: "digits long_component"
  by (simp add: digits_def long_component_def is_digit_def)

lemma long_version_shape:
  "long_version = ''0'' @ CHR ''.'' # ''0'' @ CHR ''.'' # long_component @ []"
  by (simp add: long_version_def)

lemma digits_zero: "digits ''0''"
  by (simp add: digits_def is_digit_def)

lemma long_version_format: "version_format long_version"
  unfolding long_version_shape
  by (rule version_format_digits [OF digits_zero digits_zero digits_long]) simp

lemma long_version_parse: "parse_version long_version = Inl ValueError"
proof -
  have n: "CHR ''.'' \<notin> set ''0''" by simp
  have n3: "CHR ''.'' \<notin> set long_component"
    by (simp add: long_component_def)
  have sp: "split_on CHR ''.'' long_version = [''0'', ''0'', long_component]"
    unfolding long_version_shape
    using split_on_piece [OF n] split_on_last [OF n3] by simp
  have z: "py_int ''0'' = Inr 0"
    using py_int_digits [OF digits_zero, of "[]"] by (simp add: int_max_str_digits_def decimal_def digit_val_def)
  have l: "py_int long_component = Inl ValueError"
    using py_int_long [OF digits_long, of "[]"]
    by (simp add: int_max_str_digits_def long_component_def)
  show ?thesis by (simp add: parse_version_def sp z l)
qed

lemma long_version_triple:
  "spec_triple long_version = Some (0, 0, spec_number long_component)"
  unfolding long_version_shape spec_triple_def
    spec_components_shape [OF digits_zero digits_zero digits_long disjI1 [OF refl]]
  by simp

text \<open>A bound or a version that cannot be parsed makes the check fail.\<close>

lemma unparsed_bound:
  assumes "(mn \<noteq> [] \<and> isl (parse_version mn)) \<or> (mx \<noteq> [] \<and> isl (parse_version mx))"
  shows "\<not> version_check v mn mx"
proof (cases "re_match version_pattern v = None")
  case True
  then show ?thesis by (simp add: version_check_def version_check_outcome_def)
next
  case False
  show ?thesis
  proof (cases "parse_version v")
    case (Inl e)
    with False show ?thesis by (simp add: version_check_def version_check_outcome_def)
  next
    case (Inr cur)
    show ?thesis
    proof (cases "below_bound cur mn")
      case (Inl e)
      with False Inr show ?thesis by (simp add: version_check_def version_check_outcome_def)
    next
      case b: (Inr lowb)
      have mn: "\<not> (mn \<noteq> [] \<and> isl (parse_version mn))"
        using b by (auto simp: below_bound_def split: if_splits sum.splits)
      show ?thesis
      proof (cases "above_bound cur mx")
        case (Inl e)
        with False Inr b show ?thesis
          by (cases lowb) (simp_all add: version_check_def version_check_outcome_def)
      next
        case a: (Inr highb)
        have mx: "\<not> (mx \<noteq> [] \<and> isl (parse_version mx))"
          using a by (auto simp: above_bound_def split: if_splits sum.splits)
        from mn mx assms show ?thesis by blast
      qed
    qed
  qed
qed

lemma unparsed_version: "isl (parse_version v) \<Longrightarrow> \<not> version_check v mn mx"
  by (cases "re_match version_pattern v"; cases "parse_version v")
     (simp_all add: version_check_def version_check_outcome_def)

text \<open>
  Claim C3, as amended. For a version that matches \<^verbatim>\<open>^\d+\.\d+\.\d+$\<close> and bounds that are
  absent (the empty string) or match it too, none of them with a component of more than
  4300 digits, \<^verbatim>\<open>version_check\<close> returns true exactly when the (major, minor, patch) triple
  of the version is at least the triple of the minimum, if there is one, and at most the
  triple of the maximum, if there is one; both bounds are inclusive. In particular
  "0.45.0" satisfies the minimum "0.45.0", and "0.44.9" does not.
\<close>

theorem version_check_satisfies:
  assumes "version_format version" and "spec_within_limit version"
    and "min_version = [] \<or> (version_format min_version \<and> spec_within_limit min_version)"
    and "max_version = [] \<or> (version_format max_version \<and> spec_within_limit max_version)"
  shows "(\<exists>t. spec_triple version = Some t \<and>
            (version_check version min_version max_version \<longleftrightarrow>
               (min_version = [] \<or>
                  (\<exists>lo. spec_triple min_version = Some lo \<and> spec_triple_le lo t)) \<and>
               (max_version = [] \<or>
                  (\<exists>hi. spec_triple max_version = Some hi \<and> spec_triple_le t hi)))) \<and>
         version_check ''0.45.0'' ''0.45.0'' [] \<and>
         \<not> version_check ''0.44.9'' ''0.45.0'' []"
proof -
  obtain t where t: "spec_triple version = Some t"
    using version_format_triple [OF assms(1)] by blast
  obtain lo where lo: "min_version = [] \<or>
      (version_format min_version \<and> spec_within_limit min_version \<and>
       spec_triple min_version = Some lo)"
    using assms(3) version_format_triple [of min_version] by blast
  obtain hi where hi: "max_version = [] \<or>
      (version_format max_version \<and> spec_within_limit max_version \<and>
       spec_triple max_version = Some hi)"
    using assms(4) version_format_triple [of max_version] by blast
  have c: "version_check version min_version max_version \<longleftrightarrow>
          (min_version = [] \<or> spec_triple_le lo t) \<and> (max_version = [] \<or> spec_triple_le t hi)"
    by (rule version_check_triples [OF assms(1,2) t lo hi])
  have l: "(min_version = [] \<or>
              (\<exists>lo. spec_triple min_version = Some lo \<and> spec_triple_le lo t)) \<longleftrightarrow>
           (min_version = [] \<or> spec_triple_le lo t)"
    using lo by (cases "min_version = []") simp_all
  have u: "(max_version = [] \<or>
              (\<exists>hi. spec_triple max_version = Some hi \<and> spec_triple_le t hi)) \<longleftrightarrow>
           (max_version = [] \<or> spec_triple_le t hi)"
    using hi by (cases "max_version = []") simp_all
  have "spec_triple version = Some t \<and>
            (version_check version min_version max_version \<longleftrightarrow>
               (min_version = [] \<or>
                  (\<exists>lo. spec_triple min_version = Some lo \<and> spec_triple_le lo t)) \<and>
               (max_version = [] \<or>
                  (\<exists>hi. spec_triple max_version = Some hi \<and> spec_triple_le t hi)))"
    unfolding l u using t c by simp
  then have 1: "\<exists>t. spec_triple version = Some t \<and>
            (version_check version min_version max_version \<longleftrightarrow>
               (min_version = [] \<or>
                  (\<exists>lo. spec_triple min_version = Some lo \<and> spec_triple_le lo t)) \<and>
               (max_version = [] \<or>
                  (\<exists>hi. spec_triple max_version = Some hi \<and> spec_triple_le t hi)))"
    by (rule exI)
  have 2: "version_check ''0.45.0'' ''0.45.0'' []" by code_simp
  have 3: "\<not> version_check ''0.44.9'' ''0.45.0'' []" by code_simp
  from 1 2 3 show ?thesis by blast
qed

theorem version_check_satisfies_witness:
  "version_format ''0.300.0'' \<and> version_format ''0.45.0'' \<and> version_format ''1.0.0'' \<and>
   spec_within_limit ''0.300.0'' \<and> spec_within_limit ''0.45.0'' \<and> spec_within_limit ''1.0.0'' \<and>
   spec_triple ''0.300.0'' = Some (0, 300, 0) \<and>
   spec_triple ''0.45.0'' = Some (0, 45, 0) \<and>
   spec_triple ''1.0.0'' = Some (1, 0, 0) \<and>
   version_check ''0.300.0'' ''0.45.0'' ''1.0.0''"
proof -
  have f: "version_format ''0.300.0''" "version_format ''0.45.0''" "version_format ''1.0.0''"
    by code_simp+
  have w: "spec_within_limit ''0.300.0''" "spec_within_limit ''0.45.0''"
    "spec_within_limit ''1.0.0''"
    by code_simp+
  have t: "spec_triple ''0.300.0'' = Some (0, 300, 0)"
    "spec_triple ''0.45.0'' = Some (0, 45, 0)"
    "spec_triple ''1.0.0'' = Some (1, 0, 0)"
    by code_simp+
  from version_check_satisfies [of "''0.300.0''" "''0.45.0''" "''1.0.0''"] f w t
  have "version_check ''0.300.0'' ''0.45.0'' ''1.0.0''"
    by simp
  with f w t show ?thesis by simp
qed

text \<open>
  Claim C3 as stated fails: the version "0.0." followed by 4301 ones matches the pattern
  and no bound is given, but \<^verbatim>\<open>int()\<close> refuses the third component and the check returns
  false.
\<close>

theorem long_component_rejected:
  "version_format long_version \<and>
   spec_triple long_version = Some (0, 0, spec_number long_component) \<and>
   \<not> version_check long_version [] []"
  using long_version_format long_version_triple
    unparsed_version [of long_version "[]" "[]"] long_version_parse
  by simp

lemma version_check_min:
  assumes "version_format v" "spec_within_limit v" "spec_triple v = Some t"
    and "version_format mn" "spec_within_limit mn" "spec_triple mn = Some lo"
  shows "version_check v mn mx = (spec_triple_le lo t \<and> version_check v [] mx)"
proof -
  obtain a b c where t: "t = (a, b, c)" by (cases t) auto
  obtain x y z where lo: "lo = (x, y, z)" by (cases lo) auto
  have pv: "parse_version v = Inr [int a, int b, int c]"
    using assms(1-3) t parse_version_triple by simp
  have pm: "parse_version mn = Inr [int x, int y, int z]"
    using assms(4-6) lo parse_version_triple by simp
  have ne: "mn \<noteq> []" using assms(4) by (rule version_format_nonempty)
  obtain m where f: "re_match version_pattern v = Some m"
    using assms(1) by (cases "re_match version_pattern v") (simp_all add: version_format_def)
  have b: "below_bound [int a, int b, int c] mn = Inr (\<not> spec_triple_le lo t)"
    using ne by (simp only: below_bound_def if_False sum.case pm tuple_lt_triple lo t)
  have b0: "below_bound [int a, int b, int c] [] = Inr False"
    by (simp add: below_bound_def)
  show ?thesis
    unfolding version_check_def version_check_outcome_def
    by (cases "spec_triple_le lo t") (simp_all add: f pv b b0)
qed

text \<open>
  Claim C8, as amended. For a version and minimum bounds that match the pattern and have
  no component of more than 4300 digits, raising the minimum bound (from \<open>m1\<close> to an \<open>m2\<close>
  whose triple is at least that of \<open>m1\<close>) never turns a check that failed into one that
  succeeds, whatever the maximum bound is.
\<close>

theorem version_check_min_monotone:
  assumes "version_format version" "version_format m1" "version_format m2"
    and "spec_within_limit version" "spec_within_limit m1" "spec_within_limit m2"
    and "spec_triple m1 = Some t1" "spec_triple m2 = Some t2"
    and "spec_triple_le t1 t2"
    and "\<not> version_check version m1 max_version"
  shows "\<not> version_check version m2 max_version"
proof -
  obtain t where t: "spec_triple version = Some t"
    using version_format_triple [OF assms(1)] by blast
  have 1: "version_check version m1 max_version =
             (spec_triple_le t1 t \<and> version_check version [] max_version)"
    by (rule version_check_min [OF assms(1,4) t assms(2,5,7)])
  have 2: "version_check version m2 max_version =
             (spec_triple_le t2 t \<and> version_check version [] max_version)"
    by (rule version_check_min [OF assms(1,4) t assms(3,6,8)])
  show ?thesis
    using assms(9,10) spec_triple_le_trans [of t1 t2 t] unfolding 1 2 by blast
qed

theorem version_check_min_monotone_witness:
  "version_format ''0.45.3'' \<and> version_format ''0.46.0'' \<and> version_format ''1.0.0'' \<and>
   spec_within_limit ''0.45.3'' \<and> spec_within_limit ''0.46.0'' \<and> spec_within_limit ''1.0.0'' \<and>
   spec_triple ''0.46.0'' = Some (0, 46, 0) \<and> spec_triple ''1.0.0'' = Some (1, 0, 0) \<and>
   spec_triple_le (0, 46, 0) (1, 0, 0) \<and>
   \<not> version_check ''0.45.3'' ''0.46.0'' [] \<and> \<not> version_check ''0.45.3'' ''1.0.0'' []"
proof -
  have f: "version_format ''0.45.3''" "version_format ''0.46.0''" "version_format ''1.0.0''"
    by code_simp+
  have w: "spec_within_limit ''0.45.3''" "spec_within_limit ''0.46.0''"
    "spec_within_limit ''1.0.0''"
    by code_simp+
  have t: "spec_triple ''0.46.0'' = Some (0, 46, 0)" "spec_triple ''1.0.0'' = Some (1, 0, 0)"
    by code_simp+
  have l: "spec_triple_le (0, 46, 0) (1, 0, 0)" by simp
  have c: "\<not> version_check ''0.45.3'' ''0.46.0'' []" by code_simp
  have "\<not> version_check ''0.45.3'' ''1.0.0'' []"
    by (rule version_check_min_monotone [OF f w t l c])
  with f w t l c show ?thesis by blast
qed

text \<open>
  Claim C8 as stated fails: the bound "0.0." followed by 4301 ones matches the pattern and
  its triple is below that of "1.0.0", yet the check of "2.0.0" fails against it, since
  \<^verbatim>\<open>int()\<close> refuses the bound, and succeeds against the higher bound "1.0.0".
\<close>

theorem raised_minimum_accepts:
  "version_format ''2.0.0'' \<and> version_format long_version \<and> version_format ''1.0.0'' \<and>
   spec_triple long_version = Some (0, 0, spec_number long_component) \<and>
   spec_triple ''1.0.0'' = Some (1, 0, 0) \<and>
   spec_triple_le (0, 0, spec_number long_component) (1, 0, 0) \<and>
   \<not> version_check ''2.0.0'' long_version [] \<and>
   version_check ''2.0.0'' ''1.0.0'' []"
proof -
  have f: "version_format ''2.0.0''" "version_format ''1.0.0''" by code_simp+
  have t: "spec_triple ''1.0.0'' = Some (1, 0, 0)" by code_simp
  have c: "version_check ''2.0.0'' ''1.0.0'' []" by code_simp
  have ne: "long_version \<noteq> []" by (simp add: long_version_def)
  have n: "\<not> version_check ''2.0.0'' long_version []"
    using unparsed_bound [of long_version "[]" "''2.0.0''"] ne long_version_parse by simp
  from f t c n long_version_format long_version_triple show ?thesis by simp
qed

text \<open>
  Claim C4, as amended. A \<open>version\<close> that does not match the pattern is reported as an
  invalid format and the check returns false; "1.2" and "a.b.c" are such versions. A bound
  is not tested against the pattern: a non-empty bound with a part that \<^verbatim>\<open>int()\<close> rejects
  makes the check return false, through the \<^verbatim>\<open>except\<close> branch or an earlier failure.
\<close>

theorem version_check_malformed:
  "(\<not> version_format version \<longrightarrow>
      version_check_outcome version min_version max_version = InvalidFormat) \<and>
   ((min_version \<noteq> [] \<and> isl (parse_version min_version)) \<or>
    (max_version \<noteq> [] \<and> isl (parse_version max_version)) \<longrightarrow>
      \<not> version_check version min_version max_version) \<and>
   version_check_outcome ''1.2'' min_version max_version = InvalidFormat \<and>
   version_check_outcome ''a.b.c'' min_version max_version = InvalidFormat"
proof -
  have 1: "\<not> version_format version \<longrightarrow>
      version_check_outcome version min_version max_version = InvalidFormat"
    by (cases "re_match version_pattern version")
      (simp_all add: version_format_def version_check_outcome_def)
  have 2: "(min_version \<noteq> [] \<and> isl (parse_version min_version)) \<or>
    (max_version \<noteq> [] \<and> isl (parse_version max_version)) \<longrightarrow>
      \<not> version_check version min_version max_version"
    using unparsed_bound by blast
  have n: "\<not> version_format ''1.2''" "\<not> version_format ''a.b.c''"
    by code_simp+
  have 3: "version_check_outcome ''1.2'' min_version max_version = InvalidFormat"
    using n(1) by (simp add: version_format_def version_check_outcome_def)
  have 4: "version_check_outcome ''a.b.c'' min_version max_version = InvalidFormat"
    using n(2) by (simp add: version_format_def version_check_outcome_def)
  from 1 2 3 4 show ?thesis by blast
qed

theorem version_check_malformed_witness:
  "\<not> version_format ''1.2.x'' \<and> version_check_outcome ''1.2.x'' ''0.45.0'' [] = InvalidFormat \<and>
   isl (parse_version ''a.b.c'') \<and> \<not> version_check ''1.2.3'' ''a.b.c'' [] \<and>
   \<not> version_check ''1.2.3'' [] ''a.b.c''"
proof -
  have n: "\<not> version_format ''1.2.x''" by code_simp
  have p: "isl (parse_version ''a.b.c'')" by code_simp
  have e: "''a.b.c'' \<noteq> []" by simp
  from version_check_malformed [of "''1.2.x''" "''0.45.0''" "[]"] n
  have 1: "version_check_outcome ''1.2.x'' ''0.45.0'' [] = InvalidFormat" by blast
  from version_check_malformed [of "''1.2.3''" "''a.b.c''" "[]"] p e
  have 2: "\<not> version_check ''1.2.3'' ''a.b.c'' []" by blast
  from version_check_malformed [of "''1.2.3''" "[]" "''a.b.c''"] p e
  have 3: "\<not> version_check ''1.2.3'' [] ''a.b.c''" by blast
  from n p 1 2 3 show ?thesis by blast
qed

text \<open>
  Claim C4 as stated fails: the minimum bound "1.2" does not match the pattern, and the
  check of "1.2.0" against it is satisfied, the bound being parsed to the tuple (1, 2).
\<close>

theorem bound_not_validated:
  "\<not> version_format ''1.2'' \<and> ''1.2'' \<noteq> [] \<and>
   version_check_outcome ''1.2.0'' ''1.2'' [] = Satisfied \<and> version_check ''1.2.0'' ''1.2'' []"
  by code_simp

section \<open>Properties of the file operations\<close>

text \<open>What a successful copy, move and setting of the metadata leave on the disk.\<close>

lemma copy_to_done:
  assumes "copy_to h f target d = (None, d')"
  shows "\<exists>g. d' = d(target \<mapsto> File g) \<and> content g = content f \<and> mode g = mode f"
  using assms
  by (auto simp: copy_to_def Let_def split: option.splits node.splits if_splits)

lemma copy2_done:
  assumes "copy2 h src dst d = (None, d')"
  shows "\<exists>f g. d src = Some (File f) \<and>
           d' = d((if isdir d dst then path_join h dst (basename h src) else dst) \<mapsto> File g) \<and>
           (if isdir d dst then path_join h dst (basename h src) else dst) \<noteq> src \<and>
           content g = content f \<and> mode g = mode f"
proof -
  let ?t = "if isdir d dst then path_join h dst (basename h src) else dst"
  from assms obtain f where f: "d src = Some (File f)"
    and c: "copy_to h f ?t d = (None, d')" and ne: "?t \<noteq> src"
    by (auto simp: copy2_def Let_def path_exists_def split: option.splits node.splits if_splits)
  from copy_to_done [OF c] f ne show ?thesis by blast
qed

lemma move_tmp_done:
  assumes "move_tmp h tmp dst d = (None, d')" "\<not> isdir d dst"
  shows "\<exists>m. d' = d(dst \<mapsto> File m) \<and> content m = content tmp"
proof (cases "may_rename h dst")
  case True
  with assms show ?thesis by (auto simp: move_tmp_def Let_def)
next
  case False
  with assms have "copy_to h tmp dst d = (None, d')"
    by (simp add: move_tmp_def Let_def)
  from copy_to_done [OF this] show ?thesis by blast
qed

lemma set_metadata_done:
  assumes "set_metadata h main_path original d2 = (Inr True, d')"
  shows "\<exists>moved m. d2 main_path = Some (File moved) \<and> d' = d2(main_path \<mapsto> File m) \<and>
           content m = content moved \<and> mode m = mode original"
  using assms
  by (auto simp: set_metadata_def Let_def split: option.splits node.splits if_splits)

lemma replace_main_done:
  assumes "replace_main h tmp main_path original d = (Inr True, d')"
    and "d main_path = Some (File original)"
  shows "\<exists>g m. d' = (d((if isdir d (main_path @ ''.old'')
                         then path_join h (main_path @ ''.old'') (basename h main_path)
                         else main_path @ ''.old'') \<mapsto> File g))(main_path \<mapsto> File m) \<and>
           content g = content original \<and> mode g = mode original \<and>
           content m = content tmp"
proof -
  let ?t = "if isdir d (main_path @ ''.old'')
            then path_join h (main_path @ ''.old'') (basename h main_path)
            else main_path @ ''.old''"
  from assms(1) obtain d1 d2 where
    c: "copy2 h main_path (main_path @ ''.old'') d = (None, d1)"
    and m: "move_tmp h tmp main_path d1 = (None, d2)"
    and s: "set_metadata h main_path original d2 = (Inr True, d')"
    by (auto simp: replace_main_def split: prod.splits option.splits)
  from copy2_done [OF c] assms(2) obtain g where
    g: "d1 = d(?t \<mapsto> File g)" "?t \<noteq> main_path" "content g = content original"
       "mode g = mode original"
    by auto
  have "d1 main_path = Some (File original)"
    using g(1,2) assms(2) by simp
  then have nd: "\<not> isdir d1 main_path" by (simp add: isdir_def)
  from move_tmp_done [OF m nd] obtain mv where
    mv: "d2 = d1(main_path \<mapsto> File mv)" "content mv = content tmp"
    by blast
  from set_metadata_done [OF s] mv obtain m' where
    m': "d' = d2(main_path \<mapsto> File m')" "content m' = content tmp"
    by auto
  have "d' = (d(?t \<mapsto> File g))(main_path \<mapsto> File m')"
    using m'(1) mv(1) g(1) by simp
  with g(3,4) m'(2) show ?thesis by blast
qed

text \<open>A call of \<^verbatim>\<open>modify_main_js\<close> that returns true has gone through every step.\<close>

lemma modify_main_js_done:
  assumes "modify_main_js h main_path d = (Inr True, d')"
  shows "\<exists>original decoded written.
           d main_path = Some (File original) \<and>
           decode_utf8 h (content original) = Inr decoded \<and>
           encode_locale h (write_text (linesep h) (patch_content (read_text decoded))) =
             Inr written \<and>
           replace_main h \<lparr>content = written, mode = 384, uid = euid h, gid = egid h\<rparr>
             main_path original d = (Inr True, d')"
  using assms
  by (auto simp: modify_main_js_def split: if_splits option.splits node.splits sum.splits)

text \<open>
  Claim C10. When nothing exists at the path of the target, \<^verbatim>\<open>backup_files\<close> returns true
  and leaves the disk as it was, so it creates no \<^verbatim>\<open>.bak\<close> file.
\<close>

theorem backup_files_absent:
  assumes "\<not> path_exists d main_path"
  shows "backup_files h pkg_path main_path d = (True, d)"
  using assms by (simp add: backup_files_def)

theorem backup_files_absent_witness:
  "\<not> path_exists (scenario_disk ''{}'' ''x'') ''/tmp/none.js'' \<and>
   backup_files linux_host scenario_pkg ''/tmp/none.js'' (scenario_disk ''{}'' ''x'') =
     (True, scenario_disk ''{}'' ''x'') \<and>
   snd (backup_files linux_host scenario_pkg ''/tmp/none.js'' (scenario_disk ''{}'' ''x''))
     ''/tmp/none.js.bak'' = None"
proof -
  have a: "\<not> path_exists (scenario_disk ''{}'' ''x'') ''/tmp/none.js''"
    by (simp add: path_exists_def scenario_disk_def scenario_pkg_def scenario_main_def)
  have b: "scenario_disk ''{}'' ''x'' ''/tmp/none.js.bak'' = None"
    by (simp add: scenario_disk_def scenario_pkg_def scenario_main_def)
  from backup_files_absent [OF a, of linux_host scenario_pkg] a b show ?thesis by simp
qed

text \<open>
  Claim C9, as amended. A call of \<^verbatim>\<open>modify_main_js\<close> that returns true, where
  \<^verbatim>\<open>main_path + ".old"\<close> is not a directory, leaves at that path a copy of the file as it
  was before the call, with its content and mode, in the place of any file that was there.
\<close>

theorem modify_main_js_old_copy:
  assumes "modify_main_js h main_path d = (Inr True, d')"
    and "\<not> isdir d (main_path @ ''.old'')"
  shows "\<exists>original copy. d main_path = Some (File original) \<and>
           d' (main_path @ ''.old'') = Some (File copy) \<and>
           content copy = content original \<and> mode copy = mode original"
proof -
  from modify_main_js_done [OF assms(1)] obtain original tmp where
    o: "d main_path = Some (File original)"
    and r: "replace_main h tmp main_path original d = (Inr True, d')"
    by blast
  from replace_main_done [OF r o] assms(2) obtain g m where
    "d' = (d(main_path @ ''.old'' \<mapsto> File g))(main_path \<mapsto> File m)"
    "content g = content original" "mode g = mode original"
    by auto
  with o show ?thesis by simp
qed

theorem modify_main_js_old_copy_witness:
  "fst (modify_main_js linux_host scenario_main (scenario_disk ''{}'' accessor_text)) = Inr True \<and>
   \<not> isdir (scenario_disk ''{}'' accessor_text) (scenario_main @ ''.old'') \<and>
   stored (snd (modify_main_js linux_host scenario_main (scenario_disk ''{}'' accessor_text)))
     (scenario_main @ ''.old'') = Some accessor_text"
proof -
  let ?d = "scenario_disk ''{}'' accessor_text"
  let ?r = "modify_main_js linux_host scenario_main ?d"
  have ok: "fst ?r = Inr True" by code_simp
  then have r: "?r = (Inr True, snd ?r)" by (cases ?r) simp
  have nd: "\<not> isdir ?d (scenario_main @ ''.old'')" by code_simp
  have f: "?d scenario_main = Some (File (scenario_file accessor_text))"
    by (simp add: scenario_disk_def)
  from modify_main_js_old_copy [OF r nd] f
  have "stored (snd ?r) (scenario_main @ ''.old'') = Some accessor_text"
    by (auto simp: scenario_file_def stored_def)
  with ok nd show ?thesis by simp
qed

text \<open>
  Claim C9 as stated fails: with a directory at \<^verbatim>\<open>main_path + ".old"\<close> the call returns
  true, the directory is still there, and the copy is inside it under the name of the
  target.
\<close>

theorem old_directory_keeps_copy:
  "fst (modify_main_js linux_host scenario_main (scenario_disk_old_dir ''{}'' accessor_text)) =
     Inr True \<and>
   isdir (snd (modify_main_js linux_host scenario_main (scenario_disk_old_dir ''{}'' accessor_text)))
     (scenario_main @ ''.old'') \<and>
   stored (snd (modify_main_js linux_host scenario_main (scenario_disk_old_dir ''{}'' accessor_text)))
     (scenario_main @ ''.old'') = None \<and>
   stored (snd (modify_main_js linux_host scenario_main (scenario_disk_old_dir ''{}'' accessor_text)))
     (scenario_main @ ''.old/main.js'') = Some accessor_text"
  by code_simp

text \<open>
  Claim C7. For every list of candidate bases and every disk, the loop of the Linux branch
  returns the manifest and target paths under the first candidate, in the order of the
  list, whose manifest path exists, and raises the not-found error when no candidate has
  one; on Linux \<^verbatim>\<open>get_cursor_paths\<close> is that loop over the two bases of the module.
\<close>

theorem locate_candidates_first:
  "((\<exists>i < length bases.
       path_exists d (path_join h (bases ! i) ''package.json'') \<and>
       (\<forall>j < i. \<not> path_exists d (path_join h (bases ! j) ''package.json'')) \<and>
       locate_candidates h d bases =
         Inr (path_join h (bases ! i) ''package.json'', path_join h (bases ! i) ''out/main.js'')) \<or>
    ((\<forall>b \<in> set bases. \<not> path_exists d (path_join h b ''package.json'')) \<and>
     locate_candidates h d bases =
       Inl (OSError ''Cursor installation path not found on Linux system''))) \<and>
   (system h = ''Linux'' \<longrightarrow> get_cursor_paths h d = locate_candidates h d linux_bases)"
proof -
  let ?ex = "\<lambda>b. path_exists d (path_join h b ''package.json'')"
  let ?res = "\<lambda>b. Inr (path_join h b ''package.json'', path_join h b ''out/main.js'')"
  let ?nf = "Inl (OSError ''Cursor installation path not found on Linux system'')"
  have "(\<exists>i < length bases. ?ex (bases ! i) \<and> (\<forall>j < i. \<not> ?ex (bases ! j)) \<and>
           locate_candidates h d bases = ?res (bases ! i)) \<or>
        ((\<forall>b \<in> set bases. \<not> ?ex b) \<and> locate_candidates h d bases = ?nf)"
  proof (induction bases)
    case Nil
    show ?case by simp
  next
    case (Cons b bs)
    show ?case
    proof (cases "?ex b")
      case True
      then have "0 < length (b # bs) \<and> ?ex ((b # bs) ! 0) \<and>
                 (\<forall>j < 0. \<not> ?ex ((b # bs) ! j)) \<and>
                 locate_candidates h d (b # bs) = ?res ((b # bs) ! 0)"
        by (simp add: Let_def)
      then show ?thesis by blast
    next
      case False
      from Cons show ?thesis
      proof
        assume "\<exists>i < length bs. ?ex (bs ! i) \<and> (\<forall>j < i. \<not> ?ex (bs ! j)) \<and>
                  locate_candidates h d bs = ?res (bs ! i)"
        then obtain i where i: "i < length bs" "?ex (bs ! i)" "\<forall>j < i. \<not> ?ex (bs ! j)"
          "locate_candidates h d bs = ?res (bs ! i)" by blast
        have "\<forall>j < Suc i. \<not> ?ex ((b # bs) ! j)"
          using False i(3) by (auto simp: less_Suc_eq_0_disj)
        with i False have "Suc i < length (b # bs) \<and> ?ex ((b # bs) ! Suc i) \<and>
            (\<forall>j < Suc i. \<not> ?ex ((b # bs) ! j)) \<and>
            locate_candidates h d (b # bs) = ?res ((b # bs) ! Suc i)"
          by (simp add: Let_def)
        then show ?thesis by blast
      next
        assume "(\<forall>b \<in> set bs. \<not> ?ex b) \<and> locate_candidates h d bs = ?nf"
        with False show ?thesis by (simp add: Let_def)
      qed
    qed
  qed
  moreover have "system h = ''Linux'' \<longrightarrow> get_cursor_paths h d = locate_candidates h d linux_bases"
    by (simp add: get_cursor_paths_def)
  ultimately show ?thesis by blast
qed

theorem locate_candidates_first_witness:
  "\<not> path_exists (scenario_disk ''{}'' ''x'') (posix_join ''/usr/local/cursor'' ''package.json'') \<and>
   path_exists (scenario_disk ''{}'' ''x'') (posix_join ''/opt/Cursor/resources/app'' ''package.json'') \<and>
   \<not> path_exists (scenario_disk ''{}'' ''x'') (posix_join ''/srv/cursor'' ''package.json'') \<and>
   locate_candidates linux_host (scenario_disk ''{}'' ''x'') three_candidates =
     Inr (''/opt/Cursor/resources/app/package.json'', ''/opt/Cursor/resources/app/out/main.js'') \<and>
   system linux_host = ''Linux'' \<and>
   get_cursor_paths linux_host (scenario_disk ''{}'' ''x'') =
     locate_candidates linux_host (scenario_disk ''{}'' ''x'') linux_bases"
proof -
  let ?d = "scenario_disk ''{}'' ''x''"
  have e: "\<not> path_exists ?d (posix_join ''/usr/local/cursor'' ''package.json'')"
    "path_exists ?d (posix_join ''/opt/Cursor/resources/app'' ''package.json'')"
    "\<not> path_exists ?d (posix_join ''/srv/cursor'' ''package.json'')"
    by code_simp+
  have j: "path_join linux_host = posix_join" by (simp add: linux_host_def)
  have n: "locate_candidates linux_host ?d three_candidates \<noteq>
             Inl (OSError ''Cursor installation path not found on Linux system'')"
    by code_simp
  have l: "length three_candidates = 3" by (simp add: three_candidates_def)
  from locate_candidates_first [of three_candidates ?d linux_host]
  have "(\<exists>i < length three_candidates.
       path_exists ?d (posix_join (three_candidates ! i) ''package.json'') \<and>
       (\<forall>j < i. \<not> path_exists ?d (posix_join (three_candidates ! j) ''package.json'')) \<and>
       locate_candidates linux_host ?d three_candidates =
         Inr (posix_join (three_candidates ! i) ''package.json'',
              posix_join (three_candidates ! i) ''out/main.js'')) \<or>
    ((\<forall>b \<in> set three_candidates. \<not> path_exists ?d (posix_join b ''package.json'')) \<and>
     locate_candidates linux_host ?d three_candidates =
       Inl (OSError ''Cursor installation path not found on Linux system''))"
    unfolding j by (rule conjunct1)
  with n l obtain i where i: "i < 3"
    "path_exists ?d (posix_join (three_candidates ! i) ''package.json'')"
    "locate_candidates linux_host ?d three_candidates =
       Inr (posix_join (three_candidates ! i) ''package.json'',
            posix_join (three_candidates ! i) ''out/main.js'')"
    by metis
  from i(1) have "i = 0 \<or> i = 1 \<or> i = 2" by auto
  with i(2) e have "i = 1" by (auto simp: three_candidates_def)
  with i(3) have r: "locate_candidates linux_host ?d three_candidates =
     Inr (''/opt/Cursor/resources/app/package.json'', ''/opt/Cursor/resources/app/out/main.js'')"
    by (simp add: three_candidates_def posix_join_def)
  have sy: "system linux_host = ''Linux''" by (simp add: linux_host_def)
  from locate_candidates_first [of linux_bases ?d linux_host] sy
  have g: "get_cursor_paths linux_host ?d = locate_candidates linux_host ?d linux_bases"
    by blast
  from e r sy g show ?thesis by simp
qed

text \<open>
  Claim C6. In normal mode, when the paths are found, the requirements hold and the version
  read from the manifest fails the policy (minimum "0.45.0"), the run ends with
  \<^verbatim>\<open>sys.exit(1)\<close> and the disk is as it was: the target is unchanged and no backup exists
  that did not exist before.
\<close>

theorem version_policy_failure_touches_nothing:
  assumes "get_cursor_paths h d = Inr (pkg_path, main_path)"
    and "check_system_requirements h d pkg_path main_path"
    and "read_version h d pkg_path = Inr version"
    and "\<not> version_policy version"
  shows "patch_cursor_get_machine_id h d False = (SysExit 1, d)"
  using assms by (simp add: patch_cursor_get_machine_id_def)

theorem version_policy_failure_touches_nothing_witness:
  "get_cursor_paths linux_host (scenario_disk (scenario_manifest ''0.44.0'') accessor_text) =
     Inr (scenario_pkg, scenario_main) \<and>
   check_system_requirements linux_host (scenario_disk (scenario_manifest ''0.44.0'') accessor_text)
     scenario_pkg scenario_main \<and>
   read_version linux_host (scenario_disk (scenario_manifest ''0.44.0'') accessor_text) scenario_pkg =
     Inr (JString ''0.44.0'') \<and>
   \<not> version_policy (JString ''0.44.0'') \<and>
   patch_cursor_get_machine_id linux_host
     (scenario_disk (scenario_manifest ''0.44.0'') accessor_text) False =
     (SysExit 1, scenario_disk (scenario_manifest ''0.44.0'') accessor_text) \<and>
   scenario_disk (scenario_manifest ''0.44.0'') accessor_text (scenario_main @ ''.bak'') = None"
proof -
  let ?d = "scenario_disk (scenario_manifest ''0.44.0'') accessor_text"
  have p: "get_cursor_paths linux_host ?d = Inr (scenario_pkg, scenario_main)"
    by code_simp
  have c: "check_system_requirements linux_host ?d scenario_pkg scenario_main"
    by code_simp
  have r: "read_version linux_host ?d scenario_pkg = Inr (JString ''0.44.0'')"
    by code_simp
  have v: "\<not> version_policy (JString ''0.44.0'')"
    by code_simp
  have b: "?d (scenario_main @ ''.bak'') = None"
    by (simp add: scenario_disk_def scenario_pkg_def scenario_main_def)
  from version_policy_failure_touches_nothing [OF p c r v] p c r v b
  show ?thesis by simp
qed

text \<open>
  The run ends in \<^verbatim>\<open>sys.exit(1)\<close> or returns, and in normal mode it returns only after
  every stage has succeeded.
\<close>

lemma run_finish:
  "fst (patch_cursor_get_machine_id h d restore_mode) = Returns \<or>
   fst (patch_cursor_get_machine_id h d restore_mode) = SysExit 1"
  by (auto simp: patch_cursor_get_machine_id_def split: sum.splits prod.splits bool.splits)


text \<open>
  When the system refuses \<^verbatim>\<open>os.chown\<close> to the process, as it does for a file of another
  owner, the exception leaves \<^verbatim>\<open>modify_main_js\<close> after the target has been replaced, and
  the run ends in \<^verbatim>\<open>sys.exit(1)\<close>.
\<close>

lemma chown_refused_exits:
  "fst (patch_cursor_get_machine_id (linux_host\<lparr>may_chown := (\<lambda>p f u g. False)\<rparr>)
          (scenario_disk (scenario_manifest ''0.46.1'') accessor_text) False) = SysExit 1 \<and>
   stored (snd (patch_cursor_get_machine_id (linux_host\<lparr>may_chown := (\<lambda>p f u g. False)\<rparr>)
          (scenario_disk (scenario_manifest ''0.46.1'') accessor_text) False)) scenario_main =
     Some rewritten_text"
  by code_simp

text \<open>
  Claim C5 at a restore that fails: with both files present and writable and no backup
  beside the target, \<^verbatim>\<open>restore_backup_files\<close> returns false, and the run in restore mode
  returns all the same, which ends the process with status 0.
\<close>

theorem restore_failure_returns:
  "check_system_requirements linux_host (scenario_disk (scenario_manifest ''0.46.1'') accessor_text)
     scenario_pkg scenario_main \<and>
   \<not> fst (restore_backup_files linux_host scenario_pkg scenario_main
            (scenario_disk (scenario_manifest ''0.46.1'') accessor_text)) \<and>
   fst (patch_cursor_get_machine_id linux_host
          (scenario_disk (scenario_manifest ''0.46.1'') accessor_text) True) = Returns \<and>
   exit_status (fst (patch_cursor_get_machine_id linux_host
          (scenario_disk (scenario_manifest ''0.46.1'') accessor_text) True)) = 0"
  by code_simp

section \<open>Properties of the substitution\<close>



lemma sub_from_unmatched: "unmatched p b s \<Longrightarrow> sub_from p t b s = s"
proof (induction s arbitrary: b)
  case Nil
  then show ?case by (subst sub_from.simps) simp
next
  case (Cons x xs)
  then show ?case by (subst sub_from.simps) simp
qed









text \<open>
  Claim C2, as amended. A text in which neither pattern matches at any position is left
  as it is by the two substitutions: once a file lacks the matched patterns every rule
  is a no-op.
\<close>

theorem patch_content_fixed:
  assumes "unmatched (accessor_pattern ''getMachineId'') True txt"
    and "unmatched (accessor_pattern ''getMacMachineId'') True txt"
  shows "patch_content txt = txt"
  using assms by (simp add: patch_content_def patterns_def re_sub_def sub_from_unmatched)

theorem patch_content_fixed_witness:
  "unmatched (accessor_pattern ''getMachineId'') True ''async getMachineId(){return  b.machineId}'' \<and>
   unmatched (accessor_pattern ''getMacMachineId'') True ''async getMachineId(){return  b.machineId}'' \<and>
   patch_content ''async getMachineId(){return  b.machineId}'' =
     ''async getMachineId(){return  b.machineId}''"
proof -
  have u: "unmatched (accessor_pattern ''getMachineId'') True ''async getMachineId(){return  b.machineId}''"
    "unmatched (accessor_pattern ''getMacMachineId'') True ''async getMachineId(){return  b.machineId}''"
    by code_simp+
  from patch_content_fixed [OF u] u show ?thesis by simp
qed

text \<open>
  Claim C2 as stated fails: the captured fallback may itself contain \<^verbatim>\<open>??\<close>, and then a
  second application rewrites what the first one produced.
\<close>

theorem patch_content_not_idempotent:
  "patch_content (patch_content ''async getMachineId(){return a??b??c}'') \<noteq>
   patch_content ''async getMachineId(){return a??b??c}''"
  by code_simp









section \<open>The run that patches the accessor\<close>

text \<open>
  On a host that refuses nothing to the process, a normal run that passes the checks and
  the version policy returns, when the text of the target can be decoded and the patched
  text encoded and neither \<^verbatim>\<open>.bak\<close> nor \<^verbatim>\<open>.old\<close> beside the target is a directory.
\<close>

lemma copy_to_allowed:
  assumes "\<forall>p f. may_write h p f" "\<forall>p. may_create h p" "\<forall>p f. may_copystat h p f"
    and "d target \<noteq> Some Dir"
  shows "\<exists>g. copy_to h f target d = (None, d(target \<mapsto> File g))"
proof (cases "d target")
  case None
  with assms have "copy_to h f target d =
      (None, d(target \<mapsto> File \<lparr>content = content f, mode = mode f, uid = euid h, gid = egid h\<rparr>))"
    by (simp add: copy_to_def Let_def)
  then show ?thesis by blast
next
  case (Some nd)
  with assms(4) obtain old where "d target = Some (File old)" by (cases nd) auto
  with assms have "copy_to h f target d =
      (None, d(target \<mapsto> File (old\<lparr>content := content f, mode := mode f\<rparr>)))"
    by (simp add: copy_to_def Let_def)
  then show ?thesis by blast
qed

lemma copy2_allowed:
  assumes "\<forall>p f. may_read h p f" "\<forall>p f. may_write h p f" "\<forall>p. may_create h p"
    "\<forall>p f. may_copystat h p f"
    and "d src = Some (File f)" "\<not> isdir d dst" "dst \<noteq> src"
  shows "\<exists>g. copy2 h src dst d = (None, d(dst \<mapsto> File g))"
proof -
  have "d dst \<noteq> Some Dir" using assms(6) by (simp add: isdir_def)
  from copy_to_allowed [where d = d and target = dst and f = f, OF assms(2) assms(3) assms(4) this]
  obtain g where
    "copy_to h f dst d = (None, d(dst \<mapsto> File g))" by blast
  then have "copy2 h src dst d = (None, d(dst \<mapsto> File g))"
    using assms(1,5,6,7) by (simp add: copy2_def)
  then show ?thesis by blast
qed

lemma normal_run_succeeds:
  assumes paths: "get_cursor_paths h d = Inr (pkg_path, main_path)"
    and req: "check_system_requirements h d pkg_path main_path"
    and rv: "read_version h d pkg_path = Inr version"
    and vp: "version_policy version"
    and orig: "d main_path = Some (File original)"
    and nb: "\<not> isdir d (main_path @ ''.bak'')"
    and no: "\<not> isdir d (main_path @ ''.old'')"
    and mk: "may_mktemp h"
    and rd: "\<forall>p f. may_read h p f"
    and wr: "\<forall>p f. may_write h p f"
    and cr: "\<forall>p. may_create h p"
    and cs: "\<forall>p f. may_copystat h p f"
    and rn: "\<forall>p. may_rename h p"
    and cm: "\<forall>p f. may_chmod h p f"
    and co: "\<forall>p f u g. may_chown h p f u g"
    and dec: "decode_utf8 h (content original) = Inr decoded"
    and enc: "encode_locale h (write_text (linesep h) (patch_content (read_text decoded))) =
                Inr written"
  shows "\<exists>d'. patch_cursor_get_machine_id h d False = (Returns, d')"
proof -
  have pe: "path_exists d main_path" using orig by (simp add: path_exists_def)
  from copy2_allowed [where d = d and src = main_path, OF rd wr cr cs orig nb] obtain g where
    c1: "copy2 h main_path (main_path @ ''.bak'') d = (None, d(main_path @ ''.bak'' \<mapsto> File g))"
    by auto
  define d1 where "d1 = d(main_path @ ''.bak'' \<mapsto> File g)"
  have b: "backup_files h pkg_path main_path d = (True, d1)"
    using pe c1 by (simp add: backup_files_def d1_def)
  have o1: "d1 main_path = Some (File original)" using orig by (simp add: d1_def)
  have n1: "\<not> isdir d1 (main_path @ ''.old'')" using no by (simp add: d1_def isdir_def)
  from copy2_allowed [where d = d1 and src = main_path, OF rd wr cr cs o1 n1] obtain g2 where
    c2: "copy2 h main_path (main_path @ ''.old'') d1 = (None, d1(main_path @ ''.old'' \<mapsto> File g2))"
    by auto
  define d2 where "d2 = d1(main_path @ ''.old'' \<mapsto> File g2)"
  define tmp where "tmp = \<lparr>content = written, mode = 384, uid = euid h, gid = egid h\<rparr>"
  have o2: "d2 main_path = Some (File original)" using o1 by (simp add: d2_def)
  then have "\<not> isdir d2 main_path" by (simp add: isdir_def)
  then have mv: "move_tmp h tmp main_path d2 = (None, d2(main_path \<mapsto> File tmp))"
    using rn by (simp add: move_tmp_def)
  have "fst (set_metadata h main_path original (d2(main_path \<mapsto> File tmp))) = Inr True"
    using cm co by (simp add: set_metadata_def Let_def)
  then obtain d' where
    sm: "set_metadata h main_path original (d2(main_path \<mapsto> File tmp)) = (Inr True, d')"
    by (cases "set_metadata h main_path original (d2(main_path \<mapsto> File tmp))") simp
  have "replace_main h tmp main_path original d1 = (Inr True, d')"
    using c2 mv sm by (simp add: replace_main_def d2_def)
  then have "modify_main_js h main_path d1 = (Inr True, d')"
    using o1 mk rd dec enc by (simp add: modify_main_js_def path_exists_def tmp_def)
  then have "patch_cursor_get_machine_id h d False = (Returns, d')"
    using paths req rv vp b by (simp add: patch_cursor_get_machine_id_def)
  then show ?thesis by blast
qed




end
